theory Spec2Isabelle
  imports
    Complex_Main
    "HOL-Library.Word"
    "HOL-Library.Char_ord"
    "HOL-Library.List_Lexorder"
    "HOL-Library.Sublist"
begin

section \<open>VideoMerger: a shallow embedding\<close>

text \<open>
  The repository holds two programs of package \<open>main\<close>: \<open>video_merger.go\<close> and a second
  file whose name is not known (\<open>unnamed/part_000\<close>), another variant of the same
  pipeline. Definitions without a suffix embed \<open>video_merger.go\<close>; definitions ending in
  \<open>_part0\<close> embed \<open>unnamed/part_000\<close>. Where both files hold the same text (\<open>hexToRGBA\<close>)
  there is one definition.

  Go strings are byte sequences: \<open>string\<close> (a list of 8-bit \<open>char\<close>) with the order of
  \<open>Char_ord\<close> and \<open>List_Lexorder\<close>, which is the byte-wise order Go compares strings with.
  An \<open>error\<close> is represented by its message.
\<close>

type_synonym error = string

subsection \<open>Colour parsing (\<open>hexToRGBA\<close>, \<open>hexToRGBA2\<close>)\<close>

text \<open>\<open>color.RGBA\<close>: the four \<open>uint8\<close> channels \<open>R\<close>, \<open>G\<close>, \<open>B\<close> and \<open>A\<close>.\<close>

record RGBA =
  rgbaR :: "8 word"
  rgbaG :: "8 word"
  rgbaB :: "8 word"
  rgbaA :: "8 word"

text \<open>
  The part of \<open>fmt.Sscanf\<close> that the two parsers use: a literal rune of the format, and the
  directive \<open>%02x\<close> storing into an \<open>int\<close>. The scanner reads runes, the model bytes.
  Every rune the format can accept (\<open>#\<close>, a sign, a digit) is ASCII, so a rune of more
  than one byte is refused at its first byte as the rune is refused; only white space is
  looked at as runes. The white space of the scanner is the table \<open>space\<close> of \<open>fmt\<close>:
  U+0009 to U+000D, U+0020, U+0085, U+00A0, U+1680, U+2000 to U+200A, U+2028, U+2029,
  U+202F, U+205F and U+3000. \<open>isSpace\<close> is its ASCII part, \<open>isSpace2\<close> and \<open>isSpace3\<close> are
  the runes of two and three bytes in UTF-8.
\<close>

definition isSpace :: "char \<Rightarrow> bool" where
  "isSpace c = (c \<in> {CHR 0x09, CHR 0x0A, CHR 0x0B, CHR 0x0C, CHR 0x0D, CHR 0x20})"

definition isSpace2 :: "char \<Rightarrow> char \<Rightarrow> bool" where
  "isSpace2 c1 c2 = (c1 = CHR 0xC2 \<and> (c2 = CHR 0x85 \<or> c2 = CHR 0xA0))"

definition isSpace3 :: "char \<Rightarrow> char \<Rightarrow> char \<Rightarrow> bool" where
  "isSpace3 c1 c2 c3 =
     (c1 = CHR 0xE1 \<and> c2 = CHR 0x9A \<and> c3 = CHR 0x80 \<or>
      c1 = CHR 0xE2 \<and> c2 = CHR 0x80 \<and>
        (CHR 0x80 \<le> c3 \<and> c3 \<le> CHR 0x8A \<or> c3 = CHR 0xA8 \<or> c3 = CHR 0xA9 \<or> c3 = CHR 0xAF) \<or>
      c1 = CHR 0xE2 \<and> c2 = CHR 0x81 \<and> c3 = CHR 0x9F \<or>
      c1 = CHR 0xE3 \<and> c2 = CHR 0x80 \<and> c3 = CHR 0x80)"

text \<open>
  \<open>ss.SkipSpace\<close> with \<open>nlIsSpace = false\<close> (the setting of \<open>Sscanf\<close>): a carriage return
  before a newline is dropped, a newline is an error, other white space is skipped.
\<close>

fun SkipSpace :: "string \<Rightarrow> error + string" where
  "SkipSpace [] = Inr []"
| "SkipSpace (r # rest) =
     (if r = CHR 0x0D \<and> (case rest of [] \<Rightarrow> False | n # _ \<Rightarrow> n = CHR 0x0A)
      then SkipSpace rest
      else if r = CHR 0x0A then Inl ''unexpected newline''
      else if isSpace r then SkipSpace rest
      else
        (case rest of
           [] \<Rightarrow> Inr (r # rest)
         | c2 # rest2 \<Rightarrow>
             if isSpace2 r c2 then SkipSpace rest2
             else
               (case rest2 of
                  [] \<Rightarrow> Inr (r # rest)
                | c3 # rest3 \<Rightarrow>
                    if isSpace3 r c2 c3 then SkipSpace rest3 else Inr (r # rest))))"

definition hexadecimalDigits :: string where
  "hexadecimalDigits = ''0123456789aAbBcCdDeEfF''"

definition hexval :: "char \<Rightarrow> int" where
  "hexval c =
     (let n = int (of_char c :: nat) in
      if CHR ''0'' \<le> c \<and> c \<le> CHR ''9'' then n - 48
      else if CHR ''a'' \<le> c \<and> c \<le> CHR ''f'' then n - 87
      else n - 55)"

text \<open>
  The loop \<open>for s.accept(digits) {}\<close> of \<open>scanNumber\<close>: the first argument is the number of
  runes the width of the directive still allows (\<open>ReadRune\<close> reports end of input once
  \<open>count\<close> reaches \<open>argLimit\<close>). It returns the digits taken and the input left.
\<close>

fun acceptDigits :: "nat \<Rightarrow> string \<Rightarrow> string \<times> string" where
  "acceptDigits 0 inp = ([], inp)"
| "acceptDigits (Suc k) [] = ([], [])"
| "acceptDigits (Suc k) (c # cs) =
     (if c \<in> set hexadecimalDigits
      then (case acceptDigits k cs of (tok, rest) \<Rightarrow> (c # tok, rest))
      else ([], c # cs))"

text \<open>
  \<open>strconv.ParseInt(tok, 16, 64)\<close> on a token of hexadecimal digits. The width of the
  directive bounds the token by two runes, so the range check of \<open>ParseInt\<close> never fires.
\<close>

definition parseHex :: "string \<Rightarrow> int" where
  "parseHex tok = foldl (\<lambda>acc c. 16 * acc + hexval c) 0 tok"

text \<open>
  \<open>ss.scanInt\<close> for the verb \<open>x\<close> under a width \<open>w\<close>: \<open>notEOF\<close>, an optional sign (which
  counts towards the width), then \<open>scanNumber\<close>: \<open>notEOF\<close> again, at least one digit, then
  digits while the width lasts. It returns the value and the input left, or the error the
  scanner panics with (\<open>io.EOF\<close> from \<open>notEOF\<close>).
\<close>

definition scanInt :: "nat \<Rightarrow> string \<Rightarrow> error + (int \<times> string)" where
  "scanInt w inp =
     (case (w, inp) of
        (0, _) \<Rightarrow> Inl ''EOF''
      | (_, []) \<Rightarrow> Inl ''EOF''
      | (Suc k, c # cs) \<Rightarrow>
          (let (neg, k1, inp1) =
                 (if c = CHR ''+'' then (False, k, cs)
                  else if c = CHR ''-'' then (True, k, cs)
                  else (False, Suc k, c # cs))
           in case (k1, inp1) of
                (0, _) \<Rightarrow> Inl ''EOF''
              | (_, []) \<Rightarrow> Inl ''EOF''
              | (Suc k2, d # ds) \<Rightarrow>
                  if d \<notin> set hexadecimalDigits then Inl ''expected integer''
                  else (case acceptDigits k2 ds of
                          (tok, rest) \<Rightarrow>
                            Inr (if neg then - parseHex (d # tok) else parseHex (d # tok), rest))))"

text \<open>
  \<open>doScanf\<close> on a run of \<open>n\<close> directives \<open>%02x\<close>: before each, \<open>SkipSpace\<close>; the first error
  ends the scan. The result is the list of values stored so far and the error, if any:
  operands after the failing directive are never written.
\<close>

fun scanHexPairs :: "nat \<Rightarrow> string \<Rightarrow> int list \<times> error option" where
  "scanHexPairs 0 inp = ([], None)"
| "scanHexPairs (Suc n) inp =
     (case SkipSpace inp of
        Inl e \<Rightarrow> ([], Some e)
      | Inr inp1 \<Rightarrow>
          (case scanInt 2 inp1 of
             Inl e \<Rightarrow> ([], Some e)
           | Inr (v, inp2) \<Rightarrow>
               (case scanHexPairs n inp2 of (vs, err) \<Rightarrow> (v # vs, err))))"

text \<open>
  \<open>ss.advance\<close> on one literal rune of the format: \<open>mustReadRune\<close> fails at the end of the
  input, and a rune that differs from the format is an error.
\<close>

definition advanceLit :: "char \<Rightarrow> string \<Rightarrow> error + string" where
  "advanceLit c inp =
     (case inp of
        [] \<Rightarrow> Inl ''unexpected EOF''
      | r # rest \<Rightarrow> if r = c then Inr rest else Inl ''input does not match format'')"

text \<open>\<open>fmt.Sscanf(hex, "#%02x%02x%02x", &r, &g, &b)\<close> and the same without the \<open>#\<close>.\<close>

definition Sscanf_hash_x3 :: "string \<Rightarrow> int list \<times> error option" where
  "Sscanf_hash_x3 hex =
     (case advanceLit CHR ''#'' hex of
        Inl e \<Rightarrow> ([], Some e)
      | Inr rest \<Rightarrow> scanHexPairs 3 rest)"

definition Sscanf_x3 :: "string \<Rightarrow> int list \<times> error option" where
  "Sscanf_x3 hex = scanHexPairs 3 hex"

text \<open>
  The operand \<open>i\<close> after the scan: the value stored, or the zero value the variable was
  declared with when the scan stopped before it.
\<close>

definition operand :: "int list \<Rightarrow> nat \<Rightarrow> int" where
  "operand vs i = (if i < length vs then vs ! i else 0)"

text \<open>\<open>uint8(x)\<close> of an \<open>int\<close>: the low eight bits.\<close>

definition uint8 :: "int \<Rightarrow> 8 word" where
  "uint8 x = word_of_int x"

text \<open>
  \<open>hexToRGBA\<close> (the same text in both files): the error of \<open>Sscanf\<close> is dropped, and
  whatever was stored before it becomes the colour.
\<close>

definition hexToRGBA :: "string \<Rightarrow> RGBA" where
  "hexToRGBA hex =
     (case Sscanf_hash_x3 hex of
        (vs, _) \<Rightarrow>
          \<lparr>rgbaR = uint8 (operand vs 0), rgbaG = uint8 (operand vs 1),
           rgbaB = uint8 (operand vs 2), rgbaA = 255\<rparr>)"

definition TrimPrefix :: "string \<Rightarrow> string \<Rightarrow> string" where
  "TrimPrefix s p = (if prefix p s then drop (length p) s else s)"

definition black :: RGBA where
  "black = \<lparr>rgbaR = 0, rgbaG = 0, rgbaB = 0, rgbaA = 255\<rparr>"

text \<open>
  \<open>hexToRGBA2\<close> (only in \<open>video_merger.go\<close>, not called by \<open>main\<close>): the length is checked
  and the error of \<open>Sscanf\<close> is looked at; both failures return black.
\<close>

definition hexToRGBA2 :: "string \<Rightarrow> RGBA" where
  "hexToRGBA2 hex0 =
     (let hex = TrimPrefix hex0 ''#'' in
      if length hex = 6 then
        (case Sscanf_x3 hex of
           (vs, Some e) \<Rightarrow> black
         | (vs, None) \<Rightarrow>
             \<lparr>rgbaR = uint8 (operand vs 0), rgbaG = uint8 (operand vs 1),
              rgbaB = uint8 (operand vs 2), rgbaA = 255\<rparr>)
      else black)"

subsection \<open>Library functions on paths and strings\<close>

text \<open>
  The functions of \<open>path/filepath\<close> and \<open>strings\<close> that the program calls, for a Unix
  target: the only path separator is \<open>/\<close> and there are no volume names.

  \<open>filepath.Ext\<close>: walking back from the end of the path, up to the last separator, the
  suffix that starts at the first dot met; empty when there is none.
\<close>

fun extScan :: "string \<Rightarrow> string \<Rightarrow> string" where
  "extScan [] acc = []"
| "extScan (c # cs) acc =
     (if c = CHR ''/'' then []
      else if c = CHR ''.'' then c # acc
      else extScan cs (c # acc))"

definition Ext :: "string \<Rightarrow> string" where
  "Ext path = extScan (rev path) []"

text \<open>
  \<open>filepath.Base\<close>: the last element of the path, trailing separators removed first;
  \<open>.\<close> for the empty path and \<open>/\<close> for a path of separators only.
\<close>

definition Base :: "string \<Rightarrow> string" where
  "Base path =
     (if path = [] then ''.''
      else
        (let stripped = rev (dropWhile (\<lambda>c. c = CHR ''/'') (rev path));
             elem = rev (takeWhile (\<lambda>c. c \<noteq> CHR ''/'') (rev stripped))
         in if elem = [] then ''/'' else elem))"

text \<open>
  \<open>filepath.Clean\<close>, element by element: empty elements and \<open>.\<close> are dropped; \<open>..\<close>
  removes the element before it when that is a real element, is kept at the front of a
  path that is not rooted, and is dropped at the front of a rooted path. The stack of
  elements kept so far has its newest element first.
\<close>

fun splitSlash :: "string \<Rightarrow> string list" where
  "splitSlash [] = [ [] ]"
| "splitSlash (c # cs) =
     (if c = CHR ''/'' then [] # splitSlash cs
      else (case splitSlash cs of
              [] \<Rightarrow> [ [c] ]
            | e # es \<Rightarrow> (c # e) # es))"

fun joinSlash :: "string list \<Rightarrow> string" where
  "joinSlash [] = []"
| "joinSlash [e] = e"
| "joinSlash (e # es) = e @ CHR ''/'' # joinSlash es"

definition cleanStep :: "bool \<Rightarrow> string list \<Rightarrow> string \<Rightarrow> string list" where
  "cleanStep rooted st e =
     (if e = [] \<or> e = ''.'' then st
      else if e = ''..'' then
        (case st of
           [] \<Rightarrow> if rooted then [] else [''..'']
         | t # ts \<Rightarrow> if t = ''..'' then (if rooted then st else ''..'' # st) else ts)
      else e # st)"

definition Clean :: "string \<Rightarrow> string" where
  "Clean path =
     (if path = [] then ''.''
      else
        (let rooted = (hd path = CHR ''/'');
             st = foldl (cleanStep rooted) [] (splitSlash path);
             body = joinSlash (rev st)
         in if rooted then CHR ''/'' # body
            else if body = [] then ''.''
            else body))"

text \<open>
  \<open>strings.ToLower\<close>, as far as the comparison with an ASCII string can see it: the ASCII
  capitals are lowered, and so are the only two other runes whose lower case is an ASCII
  letter, U+0130 (UTF-8 \<open>C4 B0\<close>, lower case \<open>i\<close>) and U+212A (UTF-8 \<open>E2 84 AA\<close>, lower
  case \<open>k\<close>). Every other byte is left as it is: the library rewrites other runes too, but
  never into ASCII.
\<close>

definition lowerByte :: "char \<Rightarrow> char" where
  "lowerByte c =
     (case map_of (zip ''ABCDEFGHIJKLMNOPQRSTUVWXYZ'' ''abcdefghijklmnopqrstuvwxyz'') c of
        None \<Rightarrow> c
      | Some l \<Rightarrow> l)"

fun ToLower :: "string \<Rightarrow> string" where
  "ToLower (c1 # c2 # c3 # cs) =
     (if c1 = CHR 0xE2 \<and> c2 = CHR 0x84 \<and> c3 = CHR 0xAA then CHR ''k'' # ToLower cs
      else if c1 = CHR 0xC4 \<and> c2 = CHR 0xB0 then CHR ''i'' # ToLower (c3 # cs)
      else lowerByte c1 # ToLower (c2 # c3 # cs))"
| "ToLower [c1, c2] =
     (if c1 = CHR 0xC4 \<and> c2 = CHR 0xB0 then ''i''
      else lowerByte c1 # ToLower [c2])"
| "ToLower [c1] = [lowerByte c1]"
| "ToLower [] = []"

text \<open>\<open>%d\<close> of \<open>fmt\<close> for an integer, and zero padding to a width (\<open>%02d\<close>, \<open>%05d\<close>).\<close>

fun showNat :: "nat \<Rightarrow> string" where
  "showNat n =
     (if n < 10 then [''0123456789'' ! n]
      else showNat (n div 10) @ [''0123456789'' ! (n mod 10)])"

declare showNat.simps [simp del]

definition showInt :: "int \<Rightarrow> string" where
  "showInt i = (if i < 0 then CHR ''-'' # showNat (nat (- i)) else showNat (nat i))"

definition padNat :: "nat \<Rightarrow> nat \<Rightarrow> string" where
  "padNat w n = replicate (w - length (showNat n)) CHR ''0'' @ showNat n"

subsection \<open>Directory scan (\<open>getVideoFiles\<close>)\<close>

text \<open>
  \<open>filepath.WalkDir\<close> and \<open>filepath.Walk\<close> call the function they are given once for
  every entry of the tree, the root included. What the file system holds is outside the
  program, so the walk is given as the sequence of calls it makes: the path, whether the
  entry is a directory, and the error the walk met there, if any.
\<close>

record visit =
  path :: string
  IsDir :: bool
  err :: "error option"

text \<open>\<open>allowedExt\<close>: a Go map from string to bool; a missing key reads as \<open>false\<close>.\<close>

definition allowedExt :: "string \<rightharpoonup> bool" where
  "allowedExt = [''.mp4'' \<mapsto> True, ''.mov'' \<mapsto> True, ''.avi'' \<mapsto> True, ''.mkv'' \<mapsto> True]"

definition lookupBool :: "(string \<rightharpoonup> bool) \<Rightarrow> string \<Rightarrow> bool" where
  "lookupBool m k = (case m k of None \<Rightarrow> False | Some b \<Rightarrow> b)"

text \<open>
  The closure passed to \<open>WalkDir\<close> in \<open>video_merger.go\<close>: it returns the error of the visit
  or \<open>nil\<close>, and appends to the captured slice \<open>videos\<close>.
\<close>

definition walkFn :: "visit \<Rightarrow> string list \<Rightarrow> string list \<times> error option" where
  "walkFn v videos =
     (case err v of
        Some e \<Rightarrow> (videos, Some e)
      | None \<Rightarrow>
          if \<not> IsDir v then
            (let ext = ToLower (Ext (path v)) in
             if lookupBool allowedExt ext then (videos @ [Clean (path v)], None)
             else (videos, None))
          else (videos, None))"

text \<open>The closure passed to \<open>Walk\<close> in \<open>unnamed/part_000\<close>.\<close>

definition walkFn_part0 :: "visit \<Rightarrow> string list \<Rightarrow> string list \<times> error option" where
  "walkFn_part0 v videos =
     (case err v of
        Some e \<Rightarrow> (videos, Some e)
      | None \<Rightarrow>
          if \<not> IsDir v then
            (let ext = ToLower (Ext (path v)) in
             if ext = ''.mp4'' \<or> ext = ''.mov'' \<or> ext = ''.avi'' \<or> ext = ''.mkv''
             then (videos @ [path v], None)
             else (videos, None))
          else (videos, None))"

text \<open>The walk itself: the first call that returns an error ends it with that error.\<close>

fun walk ::
  "(visit \<Rightarrow> string list \<Rightarrow> string list \<times> error option) \<Rightarrow> visit list \<Rightarrow> string list \<Rightarrow>
   string list \<times> error option" where
  "walk fn [] videos = (videos, None)"
| "walk fn (v # vs) videos =
     (case fn v videos of
        (videos', Some e) \<Rightarrow> (videos', Some e)
      | (videos', None) \<Rightarrow> walk fn vs videos')"

text \<open>
  \<open>getVideoFiles\<close>: the first argument is the file system as the walk sees it (the calls
  made for a root). \<open>sort.Strings\<close> is \<open>sort\<close> on the byte-wise order of strings.
\<close>

definition getVideoFiles :: "(string \<Rightarrow> visit list) \<Rightarrow> string \<Rightarrow> error + string list" where
  "getVideoFiles fsys sourceDir =
     (case walk walkFn (fsys sourceDir) [] of
        (videos, Some e) \<Rightarrow> Inl (''error walking directory: '' @ e)
      | (videos, None) \<Rightarrow> Inr (sort videos))"

definition getVideoFiles_part0 :: "(string \<Rightarrow> visit list) \<Rightarrow> string \<Rightarrow> error + string list" where
  "getVideoFiles_part0 fsys sourceDir =
     (case walk walkFn_part0 (fsys sourceDir) [] of
        (videos, Some e) \<Rightarrow> Inl e
      | (videos, None) \<Rightarrow> Inr (sort videos))"

subsection \<open>Configuration\<close>

text \<open>
  The struct \<open>Config\<close> and its parts. Go's \<open>int\<close> is taken at 64 bits (the width on
  amd64 and arm64), so \<open>Rate * Duration\<close> wraps as the machine multiplication does.
  \<open>Size\<close> is a \<open>float64\<close> that is only passed on to the font loader.
\<close>

record Destination =
  Output :: string
  IntermediateTextDir :: string

record FontConfig =
  Path :: string
  Size :: real

record FrameConfig =
  Width :: "64 word"
  Height :: "64 word"
  Rate :: "64 word"

record TextConfig =
  Color :: string
  Background :: string
  Duration :: "64 word"

record Config =
  Dest :: Destination
  Source :: "string list"
  Font :: FontConfig
  Frame :: FrameConfig
  Text :: TextConfig

subsection \<open>The world outside the program\<close>

text \<open>
  What a run of \<open>main\<close> does to the outside is recorded as a trace of operations, each
  with the error the program received from it (\<open>None\<close> for \<open>nil\<close>). The result of a
  deferred call is discarded by \<open>defer\<close>: no error of it reaches the program, and it is
  recorded with \<open>None\<close> whatever the call returned; what the call did is seen in the files
  that are left. A \<open>Drawing\<close> is what a \<open>gg\<close> context holds when it is saved: its size,
  the colour it was cleared with, and the string drawn with its colour, face, position
  and anchor.
\<close>

datatype Face = Face string real

record Drawing =
  dcWidth :: "64 word"
  dcHeight :: "64 word"
  dcClear :: RGBA
  dcColor :: RGBA
  dcFace :: Face
  dcText :: string
  dcPos :: "real \<times> real"
  dcAnchor :: "real \<times> real"

datatype op =
    ReadFile string
  | Unmarshal
  | WalkDir string
  | Walk string
  | MkdirAll string
  | LoadFontFace string real
  | SavePNG string Drawing
  | CreateTemp string string
  | Create string
  | Run "string list"
  | WriteString string
  | Sync
  | Close
  | Remove string
  | RemoveAll string
  | Print string

type_synonym event = "op \<times> error option"

text \<open>
  The state of a run: the trace so far, the temporary files and directories that exist
  because of this run (by the names the program or the library used for them), the
  strings written to the file list, and the stack of deferred calls (the newest first).
\<close>

record state =
  trace :: "event list"
  files :: "string list"
  filelist :: "string list"
  deferred :: "op list"

definition initial :: state where
  "initial = \<lparr>trace = [], files = [], filelist = [], deferred = []\<rparr>"

text \<open>
  The answers of the outside world, one field for each call of the program that can fail
  or that reads something: the program is deterministic once they are fixed. \<open>fsys\<close> gives
  the calls a directory walk makes for a root. \<open>file_WriteString\<close> is asked with the number
  of strings written before, since the same string can be written twice. \<open>time_Now\<close> is
  the wall clock read for the default output name.

  \<open>os_MkdirAll\<close> answers with the directories the call has made and with its error: the
  call makes the path and every parent of it that is missing, none when the path is
  there already, and it can have made some of them when it fails. \<open>leaves\<close> says whether
  a call that fails while it writes a file (\<open>SavePNG\<close>, a run of the encoder) leaves that
  file behind. \<open>os_Remove\<close> and \<open>os_RemoveAll\<close> answer for the removals themselves; a
  failing \<open>os.RemoveAll\<close> has removed what it could, and its answer holds, with the
  error, the paths it has left.
\<close>

record Time =
  Day :: nat
  Month :: nat
  Year :: nat
  Hour :: nat
  Minute :: nat
  Second :: nat

record env =
  ioutil_ReadFile :: "string \<Rightarrow> error + string"
  json_Unmarshal :: "string \<Rightarrow> error + Config"
  time_Now :: Time
  fsys :: "string \<Rightarrow> visit list"
  os_MkdirAll :: "string \<Rightarrow> string list \<times> error option"
  gg_LoadFontFace :: "string \<Rightarrow> real \<Rightarrow> error option"
  dc_SavePNG :: "string \<Rightarrow> error option"
  os_CreateTemp :: "string \<Rightarrow> string \<Rightarrow> error + string"
  os_Create :: "string \<Rightarrow> error option"
  file_WriteString :: "nat \<Rightarrow> string \<Rightarrow> error option"
  file_Sync :: "error option"
  cmd_Run :: "string list \<Rightarrow> error option"
  leaves :: "string \<Rightarrow> bool"
  os_Remove :: "string \<Rightarrow> error option"
  os_RemoveAll :: "string \<Rightarrow> (error \<times> string list) option"

definition call :: "op \<Rightarrow> error option \<Rightarrow> state \<Rightarrow> state" where
  "call f r s = s\<lparr>trace := trace s @ [(f, r)]\<rparr>"

definition Printf :: "string \<Rightarrow> state \<Rightarrow> state" where
  "Printf msg s = call (Print msg) None s"

definition create :: "string \<Rightarrow> state \<Rightarrow> state" where
  "create p s = s\<lparr>files := files s @ [p]\<rparr>"

definition createAll :: "string list \<Rightarrow> state \<Rightarrow> state" where
  "createAll ps s = s\<lparr>files := files s @ ps\<rparr>"

definition leave :: "env \<Rightarrow> string \<Rightarrow> state \<Rightarrow> state" where
  "leave env p s = (if leaves env p then create p s else s)"

definition writeLine :: "string \<Rightarrow> state \<Rightarrow> state" where
  "writeLine line s = s\<lparr>filelist := filelist s @ [line]\<rparr>"

definition deferCall :: "op \<Rightarrow> state \<Rightarrow> state" where
  "deferCall f s = s\<lparr>deferred := f # deferred s\<rparr>"

text \<open>
  The removals of package \<open>os\<close>. Paths are compared as strings: \<open>q\<close> is at or below the
  directory \<open>d\<close> when it is \<open>d\<close> or \<open>d\<close>, a separator and more, which is how the program
  names what it puts into a directory. \<open>endsWithDot\<close> is the function of that name in
  \<open>os\<close>.

  \<open>os.Remove p\<close> takes \<open>p\<close> away unless it fails. \<open>os.RemoveAll d\<close> does nothing, without
  an error, for the empty path; it refuses a path that ends in a dot (\<open>EINVAL\<close>); else it
  takes away \<open>d\<close> and everything below it, or, when it fails, all of that but the paths
  it has left. \<open>removes env f q\<close>: the call \<open>f\<close> takes the path \<open>q\<close> away.
\<close>

definition under :: "string \<Rightarrow> string \<Rightarrow> bool" where
  "under d q \<longleftrightarrow> q = d \<or> prefix (d @ ''/'') q"

definition endsWithDot :: "string \<Rightarrow> bool" where
  "endsWithDot p \<longleftrightarrow>
     p = ''.'' \<or>
     (length p \<ge> 2 \<and> p ! (length p - 1) = CHR ''.'' \<and> p ! (length p - 2) = CHR ''/'')"

fun removes :: "env \<Rightarrow> op \<Rightarrow> string \<Rightarrow> bool" where
  "removes env (Remove p) q = (q = p \<and> os_Remove env p = None)"
| "removes env (RemoveAll d) q =
     (d \<noteq> [] \<and> \<not> endsWithDot d \<and> under d q \<and>
      (case os_RemoveAll env d of None \<Rightarrow> True | Some (e, left) \<Rightarrow> q \<notin> set left))"
| "removes env f q = False"

text \<open>
  A deferred call when it runs: what it removes is gone, and the program sees no error
  of it.
\<close>

definition runDeferred :: "env \<Rightarrow> state \<Rightarrow> op \<Rightarrow> state" where
  "runDeferred env s f = call f None (s\<lparr>files := filter (\<lambda>q. \<not> removes env f q) (files s)\<rparr>)"

text \<open>
  Control flow of \<open>main\<close>: a stage either executes \<open>return\<close> or hands a value to the next
  stage. When \<open>main\<close> returns, on either way, the deferred calls run, the newest first.
\<close>

datatype 'a flow = Returned state | Next 'a state

fun andThen :: "'a flow \<Rightarrow> ('a \<Rightarrow> state \<Rightarrow> 'b flow) \<Rightarrow> 'b flow" where
  "andThen (Returned s) k = Returned s"
| "andThen (Next x s) k = k x s"

fun stateOf :: "'a flow \<Rightarrow> state" where
  "stateOf (Returned s) = s"
| "stateOf (Next x s) = s"

definition finish :: "env \<Rightarrow> 'a flow \<Rightarrow> state" where
  "finish env f =
     foldl (runDeferred env) ((stateOf f)\<lparr>deferred := []\<rparr>) (deferred (stateOf f))"

subsection \<open>The stages of \<open>main\<close>\<close>

text \<open>Reading and parsing \<open>config.json\<close> (the same text in both files).\<close>

definition loadConfig :: "env \<Rightarrow> state \<Rightarrow> Config flow" where
  "loadConfig env s =
     (case ioutil_ReadFile env ''config.json'' of
        Inl e \<Rightarrow>
          Returned (Printf (''Error reading config file: '' @ e @ ''\<newline>'')
            (call (ReadFile ''config.json'') (Some e) s))
      | Inr configData \<Rightarrow>
          (let s1 = call (ReadFile ''config.json'') None s in
           case json_Unmarshal env configData of
             Inl e \<Rightarrow>
               Returned (Printf (''Error parsing config file: '' @ e @ ''\<newline>'')
                 (call Unmarshal (Some e) s1))
           | Inr config \<Rightarrow> Next config (call Unmarshal None s1)))"

text \<open>The output path: the configured one, or a name made from the clock.\<close>

definition outputPath :: "env \<Rightarrow> Config \<Rightarrow> string" where
  "outputPath env config =
     (let output = Output (Dest config) in
      if output = [] then
        (let now = time_Now env in
         ''./dest/output_'' @ padNat 2 (Day now) @ ''_'' @ padNat 2 (Month now) @ ''_'' @
         showNat (Year now) @ ''_'' @ padNat 2 (Hour now) @ ''_'' @ padNat 2 (Minute now) @
         ''_'' @ padNat 2 (Second now) @ ''.mp4'')
      else output)"

text \<open>
  Loading the videos in \<open>video_merger.go\<close>: the explicit list, or the scan of \<open>./source\<close>
  when the list is empty; then \<open>sort.Strings\<close> on whichever it was.
\<close>

definition loadVideos :: "env \<Rightarrow> Config \<Rightarrow> state \<Rightarrow> string list flow" where
  "loadVideos env config s =
     (let videos = Source config in
      if length videos = 0 then
        (case getVideoFiles (fsys env) ''./source'' of
           Inl e \<Rightarrow>
             Returned (Printf (''Error reading source directory: '' @ e @ ''\<newline>'')
               (call (WalkDir ''./source'') (Some e) s))
         | Inr scanned \<Rightarrow> Next (sort scanned) (call (WalkDir ''./source'') None s))
      else Next (sort videos) s)"

text \<open>
  Loading the videos in \<open>unnamed/part_000\<close>: there is no sort after the choice, and the
  list is printed with \<open>fmt.Println\<close>.
\<close>

fun joinSpace :: "string list \<Rightarrow> string" where
  "joinSpace [] = []"
| "joinSpace [e] = e"
| "joinSpace (e # es) = e @ CHR '' '' # joinSpace es"

definition loadVideos_part0 :: "env \<Rightarrow> Config \<Rightarrow> state \<Rightarrow> string list flow" where
  "loadVideos_part0 env config s =
     (let videos = Source config in
      andThen
        (if length videos = 0 then
           (case getVideoFiles_part0 (fsys env) ''./source'' of
              Inl e \<Rightarrow>
                Returned (Printf (''Error reading source directory: '' @ e @ ''\<newline>'')
                  (call (Walk ''./source'') (Some e) s))
            | Inr vvv \<Rightarrow> Next vvv (call (Walk ''./source'') None s))
         else Next videos s)
        (\<lambda>videos s. Next videos (Printf (''['' @ joinSpace videos @ '']'' @ ''\<newline>'') s)))"

text \<open>
  The intermediate directory and its deferred removal (the same in both files). The
  removal is deferred once \<open>os.MkdirAll\<close> has returned without an error, and it names the
  configured path, not the directories the call has made.
\<close>

definition prepareDir :: "env \<Rightarrow> Config \<Rightarrow> state \<Rightarrow> unit flow" where
  "prepareDir env config s =
     (let dir = IntermediateTextDir (Dest config) in
      case os_MkdirAll env dir of
        (made, Some e) \<Rightarrow>
          Returned (Printf (''Error creating intermediate text directory: '' @ e @ ''\<newline>'')
            (call (MkdirAll dir) (Some e) (createAll made s)))
      | (made, None) \<Rightarrow>
          Next () (deferCall (RemoveAll dir) (call (MkdirAll dir) None (createAll made s))))"

text \<open>Loading the font (the same in both files).\<close>

definition loadFont :: "env \<Rightarrow> Config \<Rightarrow> state \<Rightarrow> Face flow" where
  "loadFont env config s =
     (let fontPath = Path (Font config); fontSize = Size (Font config) in
      case gg_LoadFontFace env fontPath fontSize of
        Some e \<Rightarrow>
          Returned (Printf (''Error loading font from path '' @ [CHR 0x27] @ fontPath @ [CHR 0x27]
              @ '': '' @ e @ ''\<newline>'')
            (call (LoadFontFace fontPath fontSize) (Some e) s))
      | None \<Rightarrow> Next (Face fontPath fontSize) (call (LoadFontFace fontPath fontSize) None s))"

text \<open>
  The frames of the transitions. The text of a transition names the video that follows
  it: its base name in \<open>video_merger.go\<close>, the path as it is in \<open>unnamed/part_000\<close>.
\<close>

definition transitionText :: "string \<Rightarrow> string" where
  "transitionText video = ''Next: '' @ Base video"

definition transitionText_part0 :: "string \<Rightarrow> string" where
  "transitionText_part0 video = ''Next: '' @ video"

definition framePathOf :: "string \<Rightarrow> nat \<Rightarrow> nat \<Rightarrow> string" where
  "framePathOf dir i j = dir @ ''/text_'' @ showNat i @ ''_frame_'' @ padNat 5 j @ ''.png''"

text \<open>
  The body of the inner loop up to \<open>SavePNG\<close>: a new context, cleared with the background,
  the text drawn at the centre. The frame number is not used.
\<close>

definition drawFrame :: "Config \<Rightarrow> Face \<Rightarrow> RGBA \<Rightarrow> RGBA \<Rightarrow> string \<Rightarrow> Drawing" where
  "drawFrame config face textColor bgColor text =
     \<lparr>dcWidth = Width (Frame config), dcHeight = Height (Frame config),
      dcClear = bgColor, dcColor = textColor, dcFace = face, dcText = text,
      dcPos = (real_of_int (sint (Width (Frame config))) / 2,
               real_of_int (sint (Height (Frame config))) / 2),
      dcAnchor = (1 / 2, 1 / 2)\<rparr>"

text \<open>The inner loop \<open>for j := 0; j < numFrames; j++\<close>, over the values \<open>j\<close> takes.\<close>

fun saveFrames ::
  "env \<Rightarrow> Config \<Rightarrow> Face \<Rightarrow> RGBA \<Rightarrow> RGBA \<Rightarrow> string \<Rightarrow> nat \<Rightarrow> nat list \<Rightarrow> state \<Rightarrow> unit flow" where
  "saveFrames env config face textColor bgColor text i [] s = Next () s"
| "saveFrames env config face textColor bgColor text i (j # js) s =
     (let framePath = framePathOf (IntermediateTextDir (Dest config)) i j;
          dc = drawFrame config face textColor bgColor text
      in case dc_SavePNG env framePath of
           Some e \<Rightarrow>
             Returned (Printf (''Error saving frame: '' @ e @ ''\<newline>'')
               (call (SavePNG framePath dc) (Some e) (leave env framePath s)))
         | None \<Rightarrow>
             saveFrames env config face textColor bgColor text i js
               (create framePath (call (SavePNG framePath dc) None s)))"

text \<open>
  The outer loop \<open>for i, video := range videos\<close>, over the pairs of index and video; the
  first video has no transition. The first argument is the text of a transition.
\<close>

fun genFrames ::
  "(string \<Rightarrow> string) \<Rightarrow> env \<Rightarrow> Config \<Rightarrow> Face \<Rightarrow> RGBA \<Rightarrow> RGBA \<Rightarrow> (nat \<times> string) list \<Rightarrow>
   state \<Rightarrow> unit flow" where
  "genFrames label env config face textColor bgColor [] s = Next () s"
| "genFrames label env config face textColor bgColor ((i, video) # rest) s =
     (if i = 0 then genFrames label env config face textColor bgColor rest s
      else
        (let text = label video;
             numFrames = Rate (Frame config) * Duration (Text config)
         in case saveFrames env config face textColor bgColor text i
                   [0..<nat (sint numFrames)] s of
              Returned s' \<Rightarrow> Returned s'
            | Next _ s' \<Rightarrow> genFrames label env config face textColor bgColor rest s'))"

text \<open>
  Creating the file list. \<open>video_merger.go\<close> asks for a temporary file and defers its
  removal, then its closing; \<open>unnamed/part_000\<close> creates \<open>filelist.txt\<close> and defers the
  closing, then the removal.
\<close>

definition createFileList :: "env \<Rightarrow> state \<Rightarrow> string flow" where
  "createFileList env s =
     (case os_CreateTemp env [] ''filelist_*.txt'' of
        Inl e \<Rightarrow>
          Returned (Printf (''Error creating filelist: '' @ e @ ''\<newline>'')
            (call (CreateTemp [] ''filelist_*.txt'') (Some e) s))
      | Inr name \<Rightarrow>
          Next name
            (deferCall Close (deferCall (Remove name)
              (create name (call (CreateTemp [] ''filelist_*.txt'') None s)))))"

definition createFileList_part0 :: "env \<Rightarrow> state \<Rightarrow> string flow" where
  "createFileList_part0 env s =
     (case os_Create env ''filelist.txt'' of
        Some e \<Rightarrow>
          Returned (Printf (''Error creating filelist: '' @ e @ ''\<newline>'')
            (call (Create ''filelist.txt'') (Some e) s))
      | None \<Rightarrow>
          Next ''filelist.txt''
            (deferCall (Remove ''filelist.txt'') (deferCall Close
              (create ''filelist.txt'' (call (Create ''filelist.txt'') None s)))))"

text \<open>A line of the file list, and the name of the clip of transition \<open>i\<close>.\<close>

definition entryLine :: "string \<Rightarrow> string" where
  "entryLine p = ''file '' @ [CHR 0x27] @ p @ [CHR 0x27] @ ''\<newline>''"

definition clipName :: "nat \<Rightarrow> string" where
  "clipName i = ''text_transition_'' @ showNat i @ ''.mp4''"

text \<open>
  The block \<open>if i > 0 { ... }\<close> of the second loop: the encoder is run on the frames of
  transition \<open>i\<close>; when it succeeds the removal of the clip is deferred and the clip is
  written to the file list. The clip exists from a run that succeeds, and a run that
  fails can leave one; the removal is deferred after the check of the error, so for a
  run that fails it is not.
\<close>

definition encodeTransition :: "env \<Rightarrow> Config \<Rightarrow> nat \<Rightarrow> state \<Rightarrow> unit flow" where
  "encodeTransition env config i s =
     (let textFramesPattern =
            IntermediateTextDir (Dest config) @ ''/text_'' @ showNat i @ ''_frame_%05d.png'';
          textVideo = clipName i;
          args = [''ffmpeg'', ''-y'', ''-framerate'', showInt (sint (Rate (Frame config))),
                  ''-i'', textFramesPattern, ''-c:v'', ''libx264'', ''-pix_fmt'', ''yuv420p'',
                  textVideo]
      in case cmd_Run env args of
           Some e \<Rightarrow>
             Returned (Printf (''Error creating text transition video: '' @ e @ ''\<newline>'')
               (call (Run args) (Some e) (leave env textVideo s)))
         | None \<Rightarrow>
             (let s1 = deferCall (Remove textVideo) (create textVideo (call (Run args) None s));
                  line = entryLine textVideo
              in case file_WriteString env (length (filelist s1)) line of
                   Some e \<Rightarrow>
                     Returned (Printf (''Error writing to filelist: '' @ e @ ''\<newline>'')
                       (call (WriteString line) (Some e) s1))
                 | None \<Rightarrow> Next () (writeLine line (call (WriteString line) None s1))))"

text \<open>
  The second loop. The first argument is the message printed when the line of a video
  cannot be written, the only text in which the two files differ here.
\<close>

fun fileListLoop :: "string \<Rightarrow> env \<Rightarrow> Config \<Rightarrow> (nat \<times> string) list \<Rightarrow> state \<Rightarrow> unit flow" where
  "fileListLoop msg env config [] s = Next () s"
| "fileListLoop msg env config ((i, video) # rest) s =
     (case (if i > 0 then encodeTransition env config i s else Next () s) of
        Returned s' \<Rightarrow> Returned s'
      | Next _ s1 \<Rightarrow>
          (let line = entryLine video in
           case file_WriteString env (length (filelist s1)) line of
             Some e \<Rightarrow>
               Returned (Printf (msg @ e @ ''\<newline>'') (call (WriteString line) (Some e) s1))
           | None \<Rightarrow> fileListLoop msg env config rest (writeLine line (call (WriteString line) None s1))))"

text \<open>
  Syncing the file list and the final concatenation. \<open>Println\<close> puts a space between its
  operands and a newline at the end. The string literal of the last line of
  \<open>video_merger.go\<close> starts with the seven bytes \<open>C3 A2 C5 93 E2 80 A6\<close>.
\<close>

definition mergeArgs :: "string \<Rightarrow> string \<Rightarrow> string list" where
  "mergeArgs name output =
     [''ffmpeg'', ''-y'', ''-f'', ''concat'', ''-safe'', ''0'', ''-i'', name, ''-c'', ''copy'', output]"

definition mergeVideos :: "env \<Rightarrow> string \<Rightarrow> string \<Rightarrow> state \<Rightarrow> unit flow" where
  "mergeVideos env name output s =
     (case file_Sync env of
        Some e \<Rightarrow>
          Returned (Printf (''Error syncing filelist: '' @ e @ ''\<newline>'') (call Sync (Some e) s))
      | None \<Rightarrow>
          (let s1 = Printf (''Merging videos into: '' @ output @ ''\<newline>'') (call Sync None s);
               args = mergeArgs name output
           in case cmd_Run env args of
                Some e \<Rightarrow>
                  Returned (Printf (''Error merging videos: '' @ e @ ''\<newline>'')
                    (call (Run args) (Some e) s1))
              | None \<Rightarrow>
                  Next ()
                    (Printf ([CHR 0xC3, CHR 0xA2, CHR 0xC5, CHR 0x93, CHR 0xE2, CHR 0x80, CHR 0xA6] @
                        '' Videos merged successfully into '' @ output @ ''\<newline>'')
                      (call (Run args) None s1))))"

definition mergeVideos_part0 :: "env \<Rightarrow> string \<Rightarrow> string \<Rightarrow> state \<Rightarrow> unit flow" where
  "mergeVideos_part0 env name output s =
     (case file_Sync env of
        Some e \<Rightarrow>
          Returned (Printf (''Error syncing filelist: '' @ e @ ''\<newline>'') (call Sync (Some e) s))
      | None \<Rightarrow>
          (let s1 = Printf (''Merging videos...'' @ ''\<newline>'')
                      (Printf (output @ ''\<newline>'') (call Sync None s));
               args = mergeArgs name output;
               done = ''Videos merged successfully into '' @ output @ ''\<newline>''
           in case cmd_Run env args of
                Some e \<Rightarrow>
                  Returned (Printf (''Error merging videos: '' @ e @ ''\<newline>'')
                    (call (Run args) (Some e) s1))
              | None \<Rightarrow>
                  Next () (Printf done (Printf done (Printf done (call (Run args) None s1))))))"

subsection \<open>\<open>main\<close>\<close>

text \<open>
  \<open>main\<close> of \<open>video_merger.go\<close>, in two parts: \<open>processVideos\<close> is the text of \<open>main\<close>
  from the creation of the intermediate directory to the end, \<open>main\<close> is what comes
  before it. Each \<open>return\<close> skips the rest, and the deferred calls run at the end.
\<close>

definition processVideos :: "env \<Rightarrow> Config \<Rightarrow> string \<Rightarrow> string list \<Rightarrow> state \<Rightarrow> unit flow" where
  "processVideos env config output videos s =
     andThen (prepareDir env config s) (\<lambda>_ s.
     andThen (loadFont env config s) (\<lambda>face s.
     let textColor = hexToRGBA (Color (Text config));
         bgColor = hexToRGBA (Background (Text config)) in
     andThen (genFrames transitionText env config face textColor bgColor
                (enumerate 0 videos) s) (\<lambda>_ s.
     andThen (createFileList env s) (\<lambda>name s.
     andThen (fileListLoop ''Error writing video to filelist: '' env config
                (enumerate 0 videos) s) (\<lambda>_ s.
     mergeVideos env name output s)))))"

definition main :: "env \<Rightarrow> state" where
  "main env =
     finish env
       (andThen (loadConfig env initial) (\<lambda>config s.
        let output = outputPath env config in
        andThen (loadVideos env config s) (processVideos env config output)))"

text \<open>
  \<open>main\<close> of \<open>unnamed/part_000\<close>. The colours are parsed before the videos are loaded,
  which no operation can observe.
\<close>

definition processVideos_part0 ::
  "env \<Rightarrow> Config \<Rightarrow> string \<Rightarrow> RGBA \<Rightarrow> RGBA \<Rightarrow> string list \<Rightarrow> state \<Rightarrow> unit flow" where
  "processVideos_part0 env config output textColor bgColor videos s =
     andThen (prepareDir env config s) (\<lambda>_ s.
     andThen (loadFont env config s) (\<lambda>face s.
     andThen (genFrames transitionText_part0 env config face textColor bgColor
                (enumerate 0 videos) s) (\<lambda>_ s.
     andThen (createFileList_part0 env s) (\<lambda>name s.
     andThen (fileListLoop ''Error writing to filelist: '' env config
                (enumerate 0 videos) s) (\<lambda>_ s.
     mergeVideos_part0 env name output s)))))"

definition main_part0 :: "env \<Rightarrow> state" where
  "main_part0 env =
     finish env
       (andThen (loadConfig env initial) (\<lambda>config s.
        let output = outputPath env config;
            textColor = hexToRGBA (Color (Text config));
            bgColor = hexToRGBA (Background (Text config)) in
        andThen (loadVideos_part0 env config s)
          (processVideos_part0 env config output textColor bgColor)))"

subsection \<open>Vocabulary of the properties\<close>

text \<open>
  What the theorems below say about a run is phrased with the following notions.

  An entry of a walk is taken by the scan when it is not a directory and its extension,
  lowered, is one of the four video extensions.
\<close>

definition isVideo :: "visit \<Rightarrow> bool" where
  "isVideo v \<longleftrightarrow> \<not> IsDir v \<and> ToLower (Ext (path v)) \<in> {''.mp4'', ''.mov'', ''.avi'', ''.mkv''}"

text \<open>A trace without a failure, and a run without a failure.\<close>

definition allOk :: "event list \<Rightarrow> bool" where
  "allOk tr = list_all (\<lambda>ev. snd ev = None) tr"

definition succeeded :: "state \<Rightarrow> bool" where
  "succeeded s = allOk (trace s)"

text \<open>
  The operations that only clean up, and the traces of runs that stop at their first
  failure: whatever failed is followed by one printed line that ends with the text of the
  error and a newline, and after that by nothing but cleaning up.
\<close>

fun isCleanup :: "op \<Rightarrow> bool" where
  "isCleanup Close = True"
| "isCleanup (Remove p) = True"
| "isCleanup (RemoveAll d) = True"
| "isCleanup f = False"

fun terminal :: "event list \<Rightarrow> bool" where
  "terminal [] = True"
| "terminal ((f, None) # tr) = terminal tr"
| "terminal ((f, Some e) # tr) =
     (case tr of
        (Print msg, None) # rest \<Rightarrow>
          suffix (e @ ''\<newline>'') msg \<and> list_all (\<lambda>ev. isCleanup (fst ev) \<and> snd ev = None) rest
      | _ \<Rightarrow> False)"

text \<open>
  Temporary paths and their removal. \<open>covers f q\<close>: the removal \<open>f\<close> is aimed at the path
  \<open>q\<close>, which it names or which lies in the directory it names. \<open>works env f\<close>: the
  removal \<open>f\<close> does what it is called for: \<open>os.Remove\<close> returns no error; \<open>os.RemoveAll\<close>
  returns no error and its path is neither empty nor \<open>.\<close> nor ends in \<open>/.\<close> (on the
  empty path the call does nothing, on the other two it fails with \<open>EINVAL\<close>).
\<close>

fun covers :: "op \<Rightarrow> string \<Rightarrow> bool" where
  "covers (Remove p) q = (q = p)"
| "covers (RemoveAll d) q = (q = d \<or> prefix (d @ ''/'') q)"
| "covers f q = False"


text \<open>
  A run of the encoder is told by the start of its command line; its last argument is
  the clip it writes.
\<close>

definition isEncoding :: "string list \<Rightarrow> bool" where
  "isEncoding args \<longleftrightarrow> take 3 args = [''ffmpeg'', ''-y'', ''-framerate'']"

text \<open>
  The temporary paths for which the program defers no removal: a directory that
  \<open>os.MkdirAll\<close> has made and that is not the path it was called with nor below it (a
  parent that was missing), or that it has made before it failed; and the clip that a
  failing run of the encoder has left. \<open>unregistered env ev q\<close>: the path \<open>q\<close> is such a
  path, made by the event \<open>ev\<close>.
\<close>

fun unregistered :: "env \<Rightarrow> event \<Rightarrow> string \<Rightarrow> bool" where
  "unregistered env (MkdirAll dir, r) q =
     (q \<in> set (fst (os_MkdirAll env dir)) \<and> (r = None \<longrightarrow> \<not> covers (RemoveAll dir) q))"
| "unregistered env (Run args, Some e) q = (isEncoding args \<and> q = last args \<and> leaves env q)"
| "unregistered env ev q = False"

text \<open>
  The removal that belongs to a call that has created something, and the states of a
  run before its deferred calls: nothing has been removed yet, only cleaning up is
  deferred, the removal that belongs
  to each creating call that succeeded is deferred, every frame is in a directory whose
  removal is deferred, and every temporary path is covered by a deferred removal unless
  it is one of those for which none is deferred.
\<close>

fun cleanupOf :: "env \<Rightarrow> event \<Rightarrow> op list" where
  "cleanupOf env (MkdirAll d, None) = [RemoveAll d]"
| "cleanupOf env (CreateTemp d pat, None) =
     (case os_CreateTemp env d pat of Inr name \<Rightarrow> [Remove name] | Inl e \<Rightarrow> [])"
| "cleanupOf env (Create p, None) = [Remove p]"
| "cleanupOf env (Run args, None) = (if isEncoding args then [Remove (last args)] else [])"
| "cleanupOf env ev = []"

fun inDir :: "op \<Rightarrow> string \<Rightarrow> bool" where
  "inDir (RemoveAll d) q = prefix (d @ ''/'') q"
| "inDir f q = False"

fun framePath :: "event \<Rightarrow> string list" where
  "framePath (SavePNG p dc, r) = [p]"
| "framePath ev = []"

definition tidy :: "env \<Rightarrow> state \<Rightarrow> bool" where
  "tidy env s \<longleftrightarrow>
     (\<forall>ev \<in> set (trace s). \<not> isCleanup (fst ev)) \<and>
     (\<forall>d \<in> set (deferred s). isCleanup d) \<and>
     (\<forall>ev \<in> set (trace s). \<forall>d \<in> set (cleanupOf env ev). d \<in> set (deferred s)) \<and>
     (\<forall>ev \<in> set (trace s). \<forall>p \<in> set (framePath ev). \<exists>d \<in> set (deferred s). inDir d p) \<and>
     (\<forall>q \<in> set (files s).
        (\<exists>d \<in> set (deferred s). covers d q) \<or> (\<exists>ev \<in> set (trace s). unregistered env ev q))"

text \<open>
  A stage \<open>f\<close> started in a state with \<open>P\<close> either hands on a value and a state with \<open>Q\<close>
  or returns in a state with \<open>R\<close>.
\<close>

definition hoare ::
  "(state \<Rightarrow> bool) \<Rightarrow> (state \<Rightarrow> 'a flow) \<Rightarrow> ('a \<Rightarrow> state \<Rightarrow> bool) \<Rightarrow> (state \<Rightarrow> bool) \<Rightarrow> bool" where
  "hoare P f Q R = (\<forall>s. P s \<longrightarrow> (case f s of Returned s' \<Rightarrow> R s' | Next x s' \<Rightarrow> Q x s'))"

text \<open>
  The states of a run that has not failed so far, and the states in which \<open>main\<close> returns
  after a failure; in both only cleaning up is deferred.
\<close>

definition okState :: "state \<Rightarrow> bool" where
  "okState s \<longleftrightarrow> allOk (trace s) \<and> list_all isCleanup (deferred s)"

definition failedState :: "state \<Rightarrow> bool" where
  "failedState s \<longleftrightarrow>
     terminal (trace s) \<and> \<not> allOk (trace s) \<and> list_all isCleanup (deferred s)"

text \<open>
  The decimal numeral of a number, as \<open>%d\<close> prints it: digits, the first not \<open>0\<close> unless
  it is the only one, with the number as their value.
\<close>

definition isDigit :: "char \<Rightarrow> bool" where
  "isDigit c \<longleftrightarrow> c \<in> set ''0123456789''"

definition readNat :: "string \<Rightarrow> nat" where
  "readNat ds = foldl (\<lambda>n c. 10 * n + (of_char c - 48)) 0 ds"

definition decimal :: "string \<Rightarrow> nat \<Rightarrow> bool" where
  "decimal ds n \<longleftrightarrow>
     ds \<noteq> [] \<and> list_all isDigit ds \<and> (hd ds = CHR ''0'' \<longrightarrow> ds = ''0'') \<and> readNat ds = n"

text \<open>The lines the second loop writes for a list of indexed videos when nothing fails.\<close>

definition linesOf :: "(nat \<times> string) list \<Rightarrow> string list" where
  "linesOf ivs =
     concat (map (\<lambda>(i, video).
       (if i > 0 then [entryLine (clipName i)] else []) @ [entryLine video]) ivs)"

text \<open>
  The frames a run has saved, in order, each with its path; and the frames of transition
  \<open>i\<close> as the configuration determines them: one for every frame number below
  \<open>Rate * Duration\<close>, all with the same drawing.
\<close>

fun savedFrame :: "event \<Rightarrow> (string \<times> Drawing) list" where
  "savedFrame (SavePNG p dc, None) = [(p, dc)]"
| "savedFrame ev = []"

definition framesOf :: "state \<Rightarrow> (string \<times> Drawing) list" where
  "framesOf s = concat (map savedFrame (trace s))"

definition numFramesOf :: "Config \<Rightarrow> nat" where
  "numFramesOf config = nat (sint (Rate (Frame config) * Duration (Text config)))"

definition transitionFrames ::
  "Config \<Rightarrow> (string \<Rightarrow> string) \<Rightarrow> nat \<Rightarrow> string \<Rightarrow> (string \<times> Drawing) list" where
  "transitionFrames config label i video =
     map (\<lambda>j. (framePathOf (IntermediateTextDir (Dest config)) i j,
               drawFrame config (Face (Path (Font config)) (Size (Font config)))
                 (hexToRGBA (Color (Text config))) (hexToRGBA (Background (Text config)))
                 (label video)))
       [0..<numFramesOf config]"

text \<open>The runs that never walk a directory.\<close>

fun isScan :: "op \<Rightarrow> bool" where
  "isScan (WalkDir d) = True"
| "isScan (Walk d) = True"
| "isScan f = False"

definition noScan :: "state \<Rightarrow> bool" where
  "noScan s \<longleftrightarrow>
     list_all (\<lambda>ev. \<not> isScan (fst ev)) (trace s) \<and> list_all isCleanup (deferred s)"

subsection \<open>Examples\<close>

text \<open>
  A source directory with two videos in capitals, a text file and a directory whose name
  ends in \<open>.mp4\<close>; a configuration with an explicit list that is not sorted, two frames
  to a transition; a world in which every call succeeds, \<open>os.MkdirAll\<close> makes the
  directory it is called with and every removal works; and one in which the final
  concatenation fails.
\<close>

definition exampleTree :: "string \<Rightarrow> visit list" where
  "exampleTree sourceDir =
     [\<lparr>path = sourceDir, IsDir = True, err = None\<rparr>,
      \<lparr>path = ''source/b.MP4'', IsDir = False, err = None\<rparr>,
      \<lparr>path = ''source/a.Mov'', IsDir = False, err = None\<rparr>,
      \<lparr>path = ''source/notes.txt'', IsDir = False, err = None\<rparr>,
      \<lparr>path = ''source/raw.mp4'', IsDir = True, err = None\<rparr>]"

definition exampleConfig :: Config where
  "exampleConfig =
     \<lparr>Dest = \<lparr>Output = ''out.mp4'', IntermediateTextDir = ''tmp''\<rparr>,
      Source = [''clips/b.mp4'', ''clips/a.mp4''],
      Font = \<lparr>Path = ''font.ttf'', Size = 48\<rparr>,
      Frame = \<lparr>Width = 640, Height = 360, Rate = 2\<rparr>,
      Text = \<lparr>Color = ''#ffffff'', Background = ''#000000'', Duration = 1\<rparr>\<rparr>"

definition scanConfig :: Config where
  "scanConfig = exampleConfig\<lparr>Source := []\<rparr>"

definition exampleEnv :: env where
  "exampleEnv =
     \<lparr>ioutil_ReadFile = (\<lambda>_. Inr ''{}''),
      json_Unmarshal = (\<lambda>_. Inr exampleConfig),
      time_Now = \<lparr>Day = 1, Month = 2, Year = 2024, Hour = 3, Minute = 4, Second = 5\<rparr>,
      fsys = exampleTree,
      os_MkdirAll = (\<lambda>dir. ([dir], None)),
      gg_LoadFontFace = (\<lambda>_ _. None),
      dc_SavePNG = (\<lambda>_. None),
      os_CreateTemp = (\<lambda>_ _. Inr ''/tmp/filelist_1.txt''),
      os_Create = (\<lambda>_. None),
      file_WriteString = (\<lambda>_ _. None),
      file_Sync = None,
      cmd_Run = (\<lambda>_. None),
      leaves = (\<lambda>_. False),
      os_Remove = (\<lambda>_. None),
      os_RemoveAll = (\<lambda>_. None)\<rparr>"

definition mergeFails :: env where
  "mergeFails =
     exampleEnv\<lparr>cmd_Run :=
       (\<lambda>args. if ''concat'' \<in> set args then Some ''exit status 1'' else None)\<rparr>"




definition exampleLoaded :: state where
  "exampleLoaded = call Unmarshal None (call (ReadFile ''config.json'') None initial)"

definition exampleCard :: "string \<Rightarrow> Drawing" where
  "exampleCard text =
     \<lparr>dcWidth = 640, dcHeight = 360,
      dcClear = \<lparr>rgbaR = 0, rgbaG = 0, rgbaB = 0, rgbaA = 255\<rparr>,
      dcColor = \<lparr>rgbaR = 255, rgbaG = 255, rgbaB = 255, rgbaA = 255\<rparr>,
      dcFace = Face ''font.ttf'' 48, dcText = text, dcPos = (320, 180),
      dcAnchor = (1 / 2, 1 / 2)\<rparr>"

section \<open>Properties\<close>

subsection \<open>Paths\<close>

text \<open>
  Cleaning a path keeps its extension whenever the extension has more than a dot: the
  last element of the path is then a real element, which \<open>Clean\<close> keeps last.
\<close>

lemma extScan_stops_at_slash:
  "CHR ''/'' \<notin> set xs \<Longrightarrow> extScan (xs @ CHR ''/'' # ys) acc = extScan xs acc"
  by (induction xs arbitrary: acc) auto

lemma Ext_last_element: "CHR ''/'' \<notin> set e \<Longrightarrow> Ext (q @ CHR ''/'' # e) = Ext e"
  using extScan_stops_at_slash [of "rev e" "rev q" "[]"] by (simp add: Ext_def)

lemma splitSlash_not_Nil [simp]: "splitSlash p \<noteq> []"
  by (induction p) (auto split: list.splits)

lemma joinSlash_splitSlash: "joinSlash (splitSlash p) = p"
proof (induction p)
  case Nil
  show ?case by simp
next
  case (Cons c cs)
  obtain e es where es: "splitSlash cs = e # es"
    by (cases "splitSlash cs") auto
  with Cons show ?case by (cases es) auto
qed

lemma splitSlash_no_slash: "e \<in> set (splitSlash p) \<Longrightarrow> CHR ''/'' \<notin> set e"
  by (induction p arbitrary: e) (auto split: list.splits if_splits)

lemma joinSlash_snoc:
  "joinSlash (xs @ [e]) = (if xs = [] then e else joinSlash xs @ CHR ''/'' # e)"
  by (induction xs rule: joinSlash.induct) auto

lemma Ext_joinSlash_snoc:
  "CHR ''/'' \<notin> set e \<Longrightarrow> Ext (joinSlash (xs @ [e])) = Ext e"
  by (simp add: joinSlash_snoc Ext_last_element)

lemma Ext_rooted: "CHR ''/'' \<notin> set e \<Longrightarrow> Ext (CHR ''/'' # joinSlash (xs @ [e])) = Ext e"
  using Ext_last_element [of e "CHR ''/'' # joinSlash xs"] Ext_last_element [of e "[]"]
  by (simp add: joinSlash_snoc)

lemma Ext_Clean:
  assumes "Ext p \<noteq> []" and "Ext p \<noteq> ''.''"
  shows "Ext (Clean p) = Ext p"
proof -
  obtain xs e where split: "splitSlash p = xs @ [e]"
    using splitSlash_not_Nil [of p] by (metis rev_exhaust)
  have noslash: "CHR ''/'' \<notin> set e"
    using splitSlash_no_slash [of e p] split by simp
  have "p = joinSlash (xs @ [e])"
    using joinSlash_splitSlash [of p] split by simp
  then have ext: "Ext p = Ext e"
    using Ext_joinSlash_snoc [OF noslash] by simp
  have real: "e \<noteq> []" "e \<noteq> ''.''" "e \<noteq> ''..''"
    using assms ext by (auto simp: Ext_def)
  have pne: "p \<noteq> []"
    using assms by (auto simp: Ext_def)
  define st where "st = (\<lambda>rooted. foldl (cleanStep rooted) [] xs)"
  have fold: "foldl (cleanStep rooted) [] (splitSlash p) = e # st rooted" for rooted
    using real by (simp add: split st_def cleanStep_def)
  have body: "joinSlash (rev (e # st rooted)) \<noteq> []" for rooted
    using real by (simp add: joinSlash_snoc)
  show ?thesis
  proof (cases "hd p = CHR ''/''")
    case True
    then have "Clean p = CHR ''/'' # joinSlash (rev (st True) @ [e])"
      using pne by (simp add: Clean_def fold)
    then show ?thesis
      using Ext_rooted [OF noslash] ext by simp
  next
    case False
    then have "Clean p = joinSlash (rev (st False) @ [e])"
      using pne body [of False] by (simp add: Clean_def fold)
    then show ?thesis
      using Ext_joinSlash_snoc [OF noslash] ext by simp
  qed
qed

subsection \<open>The directory scan\<close>

lemma lookup_allowedExt:
  "lookupBool allowedExt x \<longleftrightarrow> x \<in> {''.mp4'', ''.mov'', ''.avi'', ''.mkv''}"
  by (simp add: lookupBool_def allowedExt_def)

lemma walkFn_no_error:
  "err v = None \<Longrightarrow> walkFn v videos = (if isVideo v then videos @ [Clean (path v)] else videos, None)"
  by (simp add: walkFn_def lookup_allowedExt isVideo_def)

lemma walkFn_part0_no_error:
  "err v = None \<Longrightarrow> walkFn_part0 v videos = (if isVideo v then videos @ [path v] else videos, None)"
  by (auto simp: walkFn_part0_def isVideo_def)

lemma walkFn_error: "err v = Some e \<Longrightarrow> walkFn v videos = (videos, Some e)"
  by (simp add: walkFn_def)

lemma walkFn_part0_error: "err v = Some e \<Longrightarrow> walkFn_part0 v videos = (videos, Some e)"
  by (simp add: walkFn_part0_def)

lemma walk_no_error:
  "\<forall>v\<in>set vs. err v = None \<Longrightarrow>
   walk walkFn vs acc = (acc @ map (\<lambda>v. Clean (path v)) (filter isVideo vs), None)"
  by (induction vs arbitrary: acc) (simp_all add: walkFn_no_error)

lemma walk_part0_no_error:
  "\<forall>v\<in>set vs. err v = None \<Longrightarrow>
   walk walkFn_part0 vs acc = (acc @ map path (filter isVideo vs), None)"
  by (induction vs arbitrary: acc) (simp_all add: walkFn_part0_no_error)

lemma walk_done_no_error:
  "walk walkFn vs acc = (videos, None) \<Longrightarrow> \<forall>v\<in>set vs. err v = None"
proof (induction vs arbitrary: acc)
  case Nil
  show ?case by simp
next
  case (Cons v vs)
  show ?case
  proof (cases "err v")
    case None
    with Cons show ?thesis by (simp add: walkFn_no_error)
  next
    case (Some e)
    with Cons.prems show ?thesis by (simp add: walkFn_error)
  qed
qed

lemma walk_part0_done_no_error:
  "walk walkFn_part0 vs acc = (videos, None) \<Longrightarrow> \<forall>v\<in>set vs. err v = None"
proof (induction vs arbitrary: acc)
  case Nil
  show ?case by simp
next
  case (Cons v vs)
  show ?case
  proof (cases "err v")
    case None
    with Cons show ?thesis by (simp add: walkFn_part0_no_error)
  next
    case (Some e)
    with Cons.prems show ?thesis by (simp add: walkFn_part0_error)
  qed
qed

lemma isVideo_Ext_Clean: "isVideo v \<Longrightarrow> Ext (Clean (path v)) = Ext (path v)"
  by (rule Ext_Clean) (auto simp: isVideo_def)

lemma exampleTree_scan:
  "getVideoFiles exampleTree ''./source'' = Inr [''source/a.Mov'', ''source/b.MP4'']"
  by (simp add: getVideoFiles_def exampleTree_def walkFn_def lookupBool_def allowedExt_def
      Ext_def lowerByte_def Clean_def cleanStep_def)

lemma exampleTree_scan_part0:
  "getVideoFiles_part0 exampleTree ''./source'' = Inr [''source/a.Mov'', ''source/b.MP4'']"
  by (simp add: getVideoFiles_part0_def exampleTree_def walkFn_part0_def Ext_def lowerByte_def)

lemma exampleTree_extensions:
  "ToLower (Ext ''source/a.Mov'') = ''.mov''" "ToLower (Ext ''source/b.MP4'') = ''.mp4''"
  by (simp_all add: Ext_def lowerByte_def)

text \<open>
  C10. Recognition of the extension does not depend on letter case. When the walk meets no
  error, the scan returns, sorted, exactly the entries that are not directories and
  whose extension, lowered, is \<open>.mp4\<close>, \<open>.mov\<close>, \<open>.avi\<close> or \<open>.mkv\<close>: the cleaned
  paths in \<open>video_merger.go\<close>, the paths as walked in \<open>unnamed/part_000\<close>.
\<close>

theorem scan_case_insensitive:
  "(\<forall>v\<in>set (tree d). err v = None) \<longrightarrow>
     getVideoFiles tree d =
       Inr (sort (map (\<lambda>v. Clean (path v))
         (filter (\<lambda>v. \<not> IsDir v \<and> ToLower (Ext (path v)) \<in> {''.mp4'', ''.mov'', ''.avi'', ''.mkv''})
            (tree d)))) \<and>
     getVideoFiles_part0 tree d =
       Inr (sort (map path
         (filter (\<lambda>v. \<not> IsDir v \<and> ToLower (Ext (path v)) \<in> {''.mp4'', ''.mov'', ''.avi'', ''.mkv''})
            (tree d))))"
  using walk_no_error [of "tree d" "[]"] walk_part0_no_error [of "tree d" "[]"]
  by (simp add: getVideoFiles_def getVideoFiles_part0_def isVideo_def [abs_def])

text \<open>At the example directory, \<open>b.MP4\<close> and \<open>a.Mov\<close> are taken.\<close>

theorem scan_case_insensitive_witness:
  "map err (exampleTree ''./source'') = [None, None, None, None, None] \<and>
   map (\<lambda>v. ToLower (Ext (path v))) (exampleTree ''./source'') =
     [ [], ''.mp4'', ''.mov'', ''.txt'', ''.mp4''] \<and>
   map IsDir (exampleTree ''./source'') = [True, False, False, False, True] \<and>
   getVideoFiles exampleTree ''./source'' = Inr [''source/a.Mov'', ''source/b.MP4''] \<and>
   getVideoFiles_part0 exampleTree ''./source'' = Inr [''source/a.Mov'', ''source/b.MP4'']"
proof -
  have errs: "map err (exampleTree ''./source'') = [None, None, None, None, None]"
    by (simp add: exampleTree_def)
  then have "\<forall>v\<in>set (exampleTree ''./source''). err v = None"
    by (simp add: exampleTree_def)
  with scan_case_insensitive [of exampleTree "''./source''"]
  have "getVideoFiles exampleTree ''./source'' = Inr [''source/a.Mov'', ''source/b.MP4''] \<and>
      getVideoFiles_part0 exampleTree ''./source'' = Inr [''source/a.Mov'', ''source/b.MP4'']"
    by (simp add: exampleTree_def Ext_def lowerByte_def Clean_def cleanStep_def)
  moreover have "map (\<lambda>v. ToLower (Ext (path v))) (exampleTree ''./source'') =
      [ [], ''.mp4'', ''.mov'', ''.txt'', ''.mp4'']"
    by (simp add: exampleTree_def Ext_def lowerByte_def)
  moreover have "map IsDir (exampleTree ''./source'') = [True, False, False, False, True]"
    by (simp add: exampleTree_def)
  ultimately show ?thesis using errs by simp
qed

text \<open>
  C3. Whenever \<open>getVideoFiles\<close> returns a list, in either file, the list is sorted and
  each of its paths has one of the four video extensions (read without regard to
  letter case, as the scan reads it) and comes from an entry of the walk that is not
  a directory.
\<close>

theorem scan_only_videos_sorted:
  "(getVideoFiles tree d = Inr vs \<longrightarrow>
      sorted vs \<and>
      (\<forall>p\<in>set vs. ToLower (Ext p) \<in> {''.mp4'', ''.mov'', ''.avi'', ''.mkv''} \<and>
         (\<exists>v\<in>set (tree d). \<not> IsDir v \<and> p = Clean (path v)))) \<and>
   (getVideoFiles_part0 tree d = Inr vs \<longrightarrow>
      sorted vs \<and>
      (\<forall>p\<in>set vs. ToLower (Ext p) \<in> {''.mp4'', ''.mov'', ''.avi'', ''.mkv''} \<and>
         (\<exists>v\<in>set (tree d). \<not> IsDir v \<and> p = path v)))"
proof (intro conjI impI)
  assume r: "getVideoFiles tree d = Inr vs"
  then obtain videos where w: "walk walkFn (tree d) [] = (videos, None)" and vs: "vs = sort videos"
    by (auto simp: getVideoFiles_def split: prod.splits option.splits)
  from w have "videos = map (\<lambda>v. Clean (path v)) (filter isVideo (tree d))"
    using walk_no_error [OF walk_done_no_error [OF w], of "[]"] by simp
  with vs have set: "set vs = (\<lambda>v. Clean (path v)) ` {v \<in> set (tree d). isVideo v}"
    by simp
  show "sorted vs" by (simp add: vs)
  show "\<forall>p\<in>set vs. ToLower (Ext p) \<in> {''.mp4'', ''.mov'', ''.avi'', ''.mkv''} \<and>
         (\<exists>v\<in>set (tree d). \<not> IsDir v \<and> p = Clean (path v))"
  proof
    fix p assume "p \<in> set vs"
    then obtain v where v: "v \<in> set (tree d)" "isVideo v" "p = Clean (path v)"
      using set by auto
    then have "Ext p = Ext (path v)" by (simp add: isVideo_Ext_Clean)
    with v show "ToLower (Ext p) \<in> {''.mp4'', ''.mov'', ''.avi'', ''.mkv''} \<and>
         (\<exists>v\<in>set (tree d). \<not> IsDir v \<and> p = Clean (path v))"
      by (auto simp: isVideo_def)
  qed
next
  assume r: "getVideoFiles_part0 tree d = Inr vs"
  then obtain videos where w: "walk walkFn_part0 (tree d) [] = (videos, None)" and vs: "vs = sort videos"
    by (auto simp: getVideoFiles_part0_def split: prod.splits option.splits)
  from w have "videos = map path (filter isVideo (tree d))"
    using walk_part0_no_error [OF walk_part0_done_no_error [OF w], of "[]"] by simp
  with vs have set: "set vs = path ` {v \<in> set (tree d). isVideo v}"
    by simp
  show "sorted vs" by (simp add: vs)
  show "\<forall>p\<in>set vs. ToLower (Ext p) \<in> {''.mp4'', ''.mov'', ''.avi'', ''.mkv''} \<and>
         (\<exists>v\<in>set (tree d). \<not> IsDir v \<and> p = path v)"
    using set by (auto simp: isVideo_def)
qed

theorem scan_only_videos_sorted_witness:
  "getVideoFiles exampleTree ''./source'' = Inr [''source/a.Mov'', ''source/b.MP4''] \<and>
   getVideoFiles_part0 exampleTree ''./source'' = Inr [''source/a.Mov'', ''source/b.MP4''] \<and>
   sorted [''source/a.Mov'', ''source/b.MP4''] \<and>
   ToLower (Ext ''source/a.Mov'') = ''.mov'' \<and> ToLower (Ext ''source/b.MP4'') = ''.mp4''"
  using scan_only_videos_sorted [of exampleTree "''./source''" "[''source/a.Mov'', ''source/b.MP4'']"]
    exampleTree_scan exampleTree_scan_part0 exampleTree_extensions
  by simp

subsection \<open>Colour parsing\<close>

lemma Sscanf_wellformed_example:
  "Sscanf_hash_x3 ''#1e90ff'' = ([30, 144, 255], None)"
  by (simp add: Sscanf_hash_x3_def advanceLit_def scanInt_def isSpace_def isSpace2_def isSpace3_def
      hexadecimalDigits_def parseHex_def hexval_def eval_nat_numeral)

lemma hexToRGBA_wellformed_example:
  "hexToRGBA ''#1e90ff'' = \<lparr>rgbaR = 30, rgbaG = 144, rgbaB = 255, rgbaA = 255\<rparr>"
  by (simp add: hexToRGBA_def Sscanf_wellformed_example operand_def uint8_def)

lemma hexToRGBA_no_hash: "hex = [] \<or> hd hex \<noteq> CHR ''#'' \<Longrightarrow> hexToRGBA hex = black"
  by (cases hex) (auto simp: hexToRGBA_def Sscanf_hash_x3_def advanceLit_def operand_def
      uint8_def black_def)

lemma scanHexPairs_short_example:
  "scanHexPairs 3 ''fff'' = ([255, 15], Some ''EOF'')"
  by (simp add: scanInt_def isSpace_def isSpace2_def isSpace3_def hexadecimalDigits_def parseHex_def hexval_def
      eval_nat_numeral)

lemma hexToRGBA2_short_example: "hexToRGBA2 ''#fff'' = black"
  by (simp add: hexToRGBA2_def TrimPrefix_def)

text \<open>
  C2. The claim: on every malformed colour string the parse that \<open>main\<close> uses returns black.
  The code at the three-digit shorthand \<open>#fff\<close>: the first directive stores \<open>0xff\<close>, the
  second stores \<open>0xf\<close>, the third fails at the end of the input, the error is dropped, and
  the colour is (255, 15, 0, 255), which is not black. \<open>hexToRGBA2\<close> returns black there
  (\<open>hexToRGBA2_short_example\<close>), but \<open>main\<close> does not call it.
\<close>

theorem hexToRGBA_short_not_black:
  "hexToRGBA ''#fff'' = \<lparr>rgbaR = 255, rgbaG = 15, rgbaB = 0, rgbaA = 255\<rparr> \<and>
   hexToRGBA ''#fff'' \<noteq> black"
  by (simp add: hexToRGBA_def Sscanf_hash_x3_def advanceLit_def scanHexPairs_short_example
      operand_def uint8_def black_def)

subsection \<open>States, deferred calls and stages\<close>

lemma call_fields [simp]:
  "trace (call f r s) = trace s @ [(f, r)]" "files (call f r s) = files s"
  "filelist (call f r s) = filelist s" "deferred (call f r s) = deferred s"
  by (simp_all add: call_def)

lemma Printf_fields [simp]:
  "trace (Printf m s) = trace s @ [(Print m, None)]" "files (Printf m s) = files s"
  "filelist (Printf m s) = filelist s" "deferred (Printf m s) = deferred s"
  by (simp_all add: Printf_def)

lemma create_fields [simp]:
  "trace (create p s) = trace s" "files (create p s) = files s @ [p]"
  "filelist (create p s) = filelist s" "deferred (create p s) = deferred s"
  by (simp_all add: create_def)

lemma writeLine_fields [simp]:
  "trace (writeLine l s) = trace s" "files (writeLine l s) = files s"
  "filelist (writeLine l s) = filelist s @ [l]" "deferred (writeLine l s) = deferred s"
  by (simp_all add: writeLine_def)

lemma deferCall_fields [simp]:
  "trace (deferCall f s) = trace s" "files (deferCall f s) = files s"
  "filelist (deferCall f s) = filelist s" "deferred (deferCall f s) = f # deferred s"
  by (simp_all add: deferCall_def)

lemma initial_fields [simp]:
  "trace initial = []" "files initial = []" "filelist initial = []" "deferred initial = []"
  by (simp_all add: initial_def)

lemma createAll_fields [simp]:
  "trace (createAll ps s) = trace s" "files (createAll ps s) = files s @ ps"
  "filelist (createAll ps s) = filelist s" "deferred (createAll ps s) = deferred s"
  by (simp_all add: createAll_def)

lemma leave_fields [simp]:
  "trace (leave env p s) = trace s"
  "files (leave env p s) = files s @ (if leaves env p then [p] else [])"
  "filelist (leave env p s) = filelist s" "deferred (leave env p s) = deferred s"
  by (simp_all add: leave_def)

lemma runDeferred_fields [simp]:
  "trace (runDeferred env s d) = trace s @ [(d, None)]"
  "files (runDeferred env s d) = filter (\<lambda>q. \<not> removes env d q) (files s)"
  "filelist (runDeferred env s d) = filelist s"
  "deferred (runDeferred env s d) = deferred s"
  by (simp_all add: runDeferred_def)

lemma foldl_runDeferred_fields:
  "trace (foldl (runDeferred env) s ds) = trace s @ map (\<lambda>d. (d, None)) ds"
  "files (foldl (runDeferred env) s ds) =
     filter (\<lambda>q. list_all (\<lambda>d. \<not> removes env d q) ds) (files s)"
  "filelist (foldl (runDeferred env) s ds) = filelist s"
  "deferred (foldl (runDeferred env) s ds) = deferred s"
  by (induction ds arbitrary: s) (simp_all add: conj_commute)

lemma finish_fields:
  "trace (finish env f) = trace (stateOf f) @ map (\<lambda>d. (d, None)) (deferred (stateOf f))"
  "files (finish env f) =
     filter (\<lambda>q. list_all (\<lambda>d. \<not> removes env d q) (deferred (stateOf f))) (files (stateOf f))"
  "filelist (finish env f) = filelist (stateOf f)"
  "deferred (finish env f) = []"
  by (simp_all add: finish_def foldl_runDeferred_fields)

text \<open>Rules for composing stages.\<close>

lemma hoare_andThen:
  "hoare P f Q R \<Longrightarrow> (\<And>x. hoare (Q x) (k x) Q' R) \<Longrightarrow> hoare P (\<lambda>s. andThen (f s) k) Q' R"
  unfolding hoare_def
proof (intro allI impI)
  fix s
  assume f: "\<forall>s. P s \<longrightarrow> (case f s of Returned s' \<Rightarrow> R s' | Next x s' \<Rightarrow> Q x s')"
    and k: "\<And>x. \<forall>s. Q x s \<longrightarrow> (case k x s of Returned s' \<Rightarrow> R s' | Next y s' \<Rightarrow> Q' y s')"
    and P: "P s"
  show "case andThen (f s) k of Returned s' \<Rightarrow> R s' | Next y s' \<Rightarrow> Q' y s'"
  proof (cases "f s")
    case (Returned s')
    with f P show ?thesis by (auto split: flow.splits)
  next
    case (Next x s')
    with f P have "Q x s'" by (auto split: flow.splits)
    with k [of x] Next show ?thesis by simp
  qed
qed

lemma hoare_stateOf:
  "hoare P f Q R \<Longrightarrow> P s \<Longrightarrow> (\<And>s'. R s' \<Longrightarrow> F s') \<Longrightarrow> (\<And>x s'. Q x s' \<Longrightarrow> F s') \<Longrightarrow>
   F (stateOf (f s))"
  unfolding hoare_def by (cases "f s") (auto split: flow.splits)


lemma hoare_conj:
  "hoare P f Q R \<Longrightarrow> hoare P' f Q' R' \<Longrightarrow>
   hoare (\<lambda>s. P s \<and> P' s) f (\<lambda>x s. Q x s \<and> Q' x s) (\<lambda>s. R s \<and> R' s)"
  unfolding hoare_def by (auto split: flow.splits)

lemma hoare_Next: "hoare P f Q R \<Longrightarrow> P s \<Longrightarrow> f s = Next x s' \<Longrightarrow> Q x s'"
  unfolding hoare_def by (auto split: flow.splits)

lemma hoare_Returned: "hoare P f Q R \<Longrightarrow> P s \<Longrightarrow> f s = Returned s' \<Longrightarrow> R s'"
  unfolding hoare_def by (auto split: flow.splits)

lemma hoare_assume: "(C \<Longrightarrow> hoare P f Q R) \<Longrightarrow> hoare (\<lambda>s. C \<and> P s) f Q R"
  unfolding hoare_def by blast

text \<open>
  Rules for the loops: a property that every step of a loop keeps, and that leads to \<open>R\<close>
  when a step fails, holds after the loop.
\<close>

lemma saveFrames_inv:
  assumes ok: "\<And>s j. I s \<Longrightarrow>
      I (create (framePathOf (IntermediateTextDir (Dest config)) i j)
          (call (SavePNG (framePathOf (IntermediateTextDir (Dest config)) i j)
             (drawFrame config face tc bg text)) None s))"
    and fail: "\<And>s j e. I s \<Longrightarrow>
      R (Printf (''Error saving frame: '' @ e @ ''\<newline>'')
          (call (SavePNG (framePathOf (IntermediateTextDir (Dest config)) i j)
             (drawFrame config face tc bg text)) (Some e)
             (leave env (framePathOf (IntermediateTextDir (Dest config)) i j) s)))"
  shows "hoare I (saveFrames env config face tc bg text i js) (\<lambda>_. I) R"
  unfolding hoare_def
proof (induction js)
  case Nil
  show ?case by simp
next
  case (Cons j js)
  show ?case
  proof (intro allI impI)
    fix s assume s: "I s"
    show "case saveFrames env config face tc bg text i (j # js) s of
        Returned s' \<Rightarrow> R s' | Next x s' \<Rightarrow> I s'"
      using Cons ok [OF s, of j] fail [OF s, of _ j]
      by (simp add: Let_def split: option.splits)
  qed
qed

lemma genFrames_inv:
  assumes inner: "\<And>i text. hoare I (saveFrames env config face tc bg text i
      [0..<nat (sint (Rate (Frame config) * Duration (Text config)))]) (\<lambda>_. I) R"
  shows "hoare I (genFrames label env config face tc bg ivs) (\<lambda>_. I) R"
  unfolding hoare_def
proof (induction ivs)
  case Nil
  show ?case by simp
next
  case (Cons iv ivs)
  obtain i video where iv: "iv = (i, video)" by (cases iv)
  show ?case
  proof (intro allI impI)
    fix s assume s: "I s"
    let ?inner = "saveFrames env config face tc bg (label video) i
          [0..<nat (sint (Rate (Frame config) * Duration (Text config)))] s"
    from inner [of "label video" i] s
    have spec: "case ?inner of Returned s' \<Rightarrow> R s' | Next x s' \<Rightarrow> I s'"
      by (simp add: hoare_def)
    show "case genFrames label env config face tc bg (iv # ivs) s of
        Returned s' \<Rightarrow> R s' | Next x s' \<Rightarrow> I s'"
    proof (cases "i = 0")
      case True
      with Cons s iv show ?thesis by simp
    next
      case False
      show ?thesis
      proof (cases ?inner)
        case (Returned s')
        with spec False iv show ?thesis by (simp add: Let_def)
      next
        case (Next x s')
        with spec have "I s'" by simp
        with Cons have "case genFrames label env config face tc bg ivs s' of
            Returned s' \<Rightarrow> R s' | Next x s' \<Rightarrow> I s'" by simp
        with Next False iv show ?thesis by (simp add: Let_def)
      qed
    qed
  qed
qed

lemma fileListLoop_inv:
  assumes enc: "\<And>i. hoare I (encodeTransition env config i) (\<lambda>_. I) R"
    and ok: "\<And>s l. I s \<Longrightarrow> I (writeLine l (call (WriteString l) None s))"
    and fail: "\<And>s l e. I s \<Longrightarrow>
      R (Printf (msg @ e @ ''\<newline>'') (call (WriteString l) (Some e) s))"
  shows "hoare I (fileListLoop msg env config ivs) (\<lambda>_. I) R"
  unfolding hoare_def
proof (induction ivs)
  case Nil
  show ?case by simp
next
  case (Cons iv ivs)
  obtain i video where iv: "iv = (i, video)" by (cases iv)
  show ?case
  proof (intro allI impI)
    fix s assume s: "I s"
    let ?first = "if i > 0 then encodeTransition env config i s else Next () s"
    have first: "case ?first of Returned s' \<Rightarrow> R s' | Next x s' \<Rightarrow> I s'"
      using enc [of i] s by (simp add: hoare_def)
    show "case fileListLoop msg env config (iv # ivs) s of
        Returned s' \<Rightarrow> R s' | Next x s' \<Rightarrow> I s'"
    proof (cases ?first)
      case (Returned s')
      with first iv show ?thesis by simp
    next
      case (Next x s1)
      with first have s1: "I s1" by simp
      show ?thesis
        using Cons Next iv ok [OF s1, of "entryLine video"] fail [OF s1, of _ "entryLine video"]
        by (simp add: Let_def split: option.splits)
    qed
  qed
qed

subsection \<open>Failures\<close>

lemma allOk_simps [simp]:
  "allOk []" "allOk (tr @ tr') \<longleftrightarrow> allOk tr \<and> allOk tr'" "allOk ((f, r) # tr) \<longleftrightarrow> r = None \<and> allOk tr"
  by (simp_all add: allOk_def)

lemma terminal_after_ok: "allOk tr \<Longrightarrow> terminal (tr @ tr') = terminal tr'"
  by (induction tr rule: terminal.induct) simp_all

lemma terminal_cleanup:
  "terminal tr \<Longrightarrow> list_all isCleanup ds \<Longrightarrow> terminal (tr @ map (\<lambda>d. (d, None)) ds)"
proof (induction tr rule: terminal.induct)
  case 1
  have "allOk (map (\<lambda>d. (d, None)) ds)" by (induction ds) simp_all
  then show ?case using terminal_after_ok [of "map (\<lambda>d. (d, None)) ds" "[]"] by simp
next
  case (2 f tr)
  then show ?case by simp
next
  case (3 f e tr)
  then show ?case
    by (auto simp: list_all_iff split: list.splits prod.splits op.splits option.splits)
qed

lemma suffix_message [simp]: "suffix x ys \<Longrightarrow> suffix x (a @ ys)"
  by (simp add: suffix_appendI)

lemma okState_simps [simp]:
  "okState (call f r s) \<longleftrightarrow> r = None \<and> okState s" "okState (Printf m s) = okState s"
  "okState (writeLine l s) = okState s" "okState (create p s) = okState s"
  "okState (deferCall d s) \<longleftrightarrow> isCleanup d \<and> okState s" "okState initial"
  "okState (createAll ps s) = okState s" "okState (leave env p s) = okState s"
  by (auto simp: okState_def)

lemma failedState_fail:
  "okState s \<Longrightarrow> suffix (e @ ''\<newline>'') m \<Longrightarrow> failedState (Printf m (call f (Some e) s))"
  by (simp add: okState_def failedState_def terminal_after_ok)

declare suffix_Cons [simp]

lemma loadConfig_ok: "hoare okState (loadConfig env) (\<lambda>_. okState) failedState"
  by (simp add: hoare_def loadConfig_def Let_def failedState_fail split: sum.splits)

lemma loadVideos_ok: "hoare okState (loadVideos env config) (\<lambda>_. okState) failedState"
  by (simp add: hoare_def loadVideos_def Let_def failedState_fail split: sum.splits)

lemma loadVideos_part0_ok: "hoare okState (loadVideos_part0 env config) (\<lambda>_. okState) failedState"
  by (simp add: hoare_def loadVideos_part0_def Let_def failedState_fail split: sum.splits)

lemma prepareDir_ok: "hoare okState (prepareDir env config) (\<lambda>_. okState) failedState"
  by (simp add: hoare_def prepareDir_def Let_def failedState_fail split: prod.splits option.splits)

lemma loadFont_ok: "hoare okState (loadFont env config) (\<lambda>_. okState) failedState"
  by (simp add: hoare_def loadFont_def Let_def failedState_fail split: option.splits)

lemma genFrames_ok:
  "hoare okState (genFrames label env config face tc bg ivs) (\<lambda>_. okState) failedState"
  by (rule genFrames_inv, rule saveFrames_inv) (simp_all add: failedState_fail)

lemma createFileList_ok: "hoare okState (createFileList env) (\<lambda>_. okState) failedState"
  by (simp add: hoare_def createFileList_def failedState_fail split: sum.splits)

lemma createFileList_part0_ok: "hoare okState (createFileList_part0 env) (\<lambda>_. okState) failedState"
  by (simp add: hoare_def createFileList_part0_def failedState_fail split: option.splits)

lemma encodeTransition_ok: "hoare okState (encodeTransition env config i) (\<lambda>_. okState) failedState"
  by (simp add: hoare_def encodeTransition_def Let_def failedState_fail split: option.splits)

lemma fileListLoop_ok:
  "hoare okState (fileListLoop msg env config ivs) (\<lambda>_. okState) failedState"
  by (rule fileListLoop_inv [OF encodeTransition_ok]) (simp_all add: failedState_fail)

lemma mergeVideos_ok: "hoare okState (mergeVideos env name output) (\<lambda>_. okState) failedState"
  by (simp add: hoare_def mergeVideos_def Let_def failedState_fail split: option.splits)

lemma mergeVideos_part0_ok:
  "hoare okState (mergeVideos_part0 env name output) (\<lambda>_. okState) failedState"
  by (simp add: hoare_def mergeVideos_part0_def Let_def failedState_fail split: option.splits)

lemma processVideos_ok:
  "hoare okState (processVideos env config output videos) (\<lambda>_. okState) failedState"
  unfolding processVideos_def Let_def
  by (rule hoare_andThen [OF prepareDir_ok], rule hoare_andThen [OF loadFont_ok],
      rule hoare_andThen [OF genFrames_ok], rule hoare_andThen [OF createFileList_ok],
      rule hoare_andThen [OF fileListLoop_ok], rule mergeVideos_ok)

lemma processVideos_part0_ok:
  "hoare okState (processVideos_part0 env config output tc bg videos) (\<lambda>_. okState) failedState"
  unfolding processVideos_part0_def
  by (rule hoare_andThen [OF prepareDir_ok], rule hoare_andThen [OF loadFont_ok],
      rule hoare_andThen [OF genFrames_ok], rule hoare_andThen [OF createFileList_part0_ok],
      rule hoare_andThen [OF fileListLoop_ok], rule mergeVideos_part0_ok)

lemma terminal_finish:
  "okState (stateOf f) \<or> failedState (stateOf f) \<Longrightarrow> terminal (trace (finish env f))"
  using terminal_cleanup [of "trace (stateOf f)" "deferred (stateOf f)"]
    terminal_after_ok [of "trace (stateOf f)" "[]"]
  by (auto simp: finish_fields okState_def failedState_def)

lemma failedState_not_succeeded: "failedState (stateOf f) \<Longrightarrow> \<not> succeeded (finish env f)"
  by (simp add: failedState_def succeeded_def finish_fields)

lemma succeeded_finish_Next:
  assumes run: "hoare okState f (\<lambda>_. okState) failedState" and s: "okState s"
    and ok: "succeeded (finish env (f s))"
  obtains x s' where "f s = Next x s'"
proof (cases "f s")
  case (Returned s')
  with hoare_Returned [OF run s Returned] failedState_not_succeeded [of "f s"] ok
  show ?thesis by simp
next
  case (Next x s')
  then show ?thesis by (rule that)
qed

lemma okState_cleanup: "okState s \<Longrightarrow> list_all isCleanup (deferred s)"
  by (simp add: okState_def)

lemmas example_defs =
  main_def main_part0_def processVideos_def processVideos_part0_def loadConfig_def
  loadVideos_def loadVideos_part0_def prepareDir_def loadFont_def createFileList_def
  createFileList_part0_def encodeTransition_def mergeVideos_def mergeVideos_part0_def
  exampleEnv_def exampleConfig_def mergeFails_def outputPath_def finish_def initial_def call_def
  Printf_def create_def createAll_def leave_def writeLine_def deferCall_def runDeferred_def
  under_def endsWithDot_def Let_def upt_rec

lemma mergeFails_trace:
  "drop 13 (trace (main mergeFails)) =
     [(Run (mergeArgs ''/tmp/filelist_1.txt'' ''out.mp4''), Some ''exit status 1''),
      (Print ''Error merging videos: exit status 1\<newline>'', None),
      (Remove ''text_transition_1.mp4'', None), (Close, None),
      (Remove ''/tmp/filelist_1.txt'', None), (RemoveAll ''tmp'', None)]"
  by (simp add: example_defs mergeArgs_def clipName_def showInt_def showNat.simps)

text \<open>
  C9. Every failure is terminal. In either file and whatever the outside world answers,
  the trace of \<open>main\<close> has this shape: operations that succeed, then possibly one that
  fails (reading or parsing the configuration, the directory scan, creating the
  directory, loading the font, saving a frame, creating, writing or syncing the file
  list, a run of the external tool), then one printed line that ends with the text of
  that error, then only the deferred cleaning up. No operation of the pipeline runs
  after a failure, and none is tried again.
\<close>

theorem failures_terminal:
  "terminal (trace (main env)) \<and> terminal (trace (main_part0 env))"
proof
  have "hoare okState
     (\<lambda>s. andThen (loadConfig env s) (\<lambda>config s.
        let output = outputPath env config in
        andThen (loadVideos env config s) (processVideos env config output)))
     (\<lambda>_. okState) failedState"
    unfolding Let_def
    by (rule hoare_andThen [OF loadConfig_ok], rule hoare_andThen [OF loadVideos_ok],
        rule processVideos_ok)
  then show "terminal (trace (main env))"
    unfolding main_def
    by (intro terminal_finish) (rule hoare_stateOf, assumption, simp_all)
  have "hoare okState
     (\<lambda>s. andThen (loadConfig env s) (\<lambda>config s.
        let output = outputPath env config;
            textColor = hexToRGBA (Color (Text config));
            bgColor = hexToRGBA (Background (Text config)) in
        andThen (loadVideos_part0 env config s)
          (processVideos_part0 env config output textColor bgColor)))
     (\<lambda>_. okState) failedState"
    unfolding Let_def
    by (rule hoare_andThen [OF loadConfig_ok], rule hoare_andThen [OF loadVideos_part0_ok],
        rule processVideos_part0_ok)
  then show "terminal (trace (main_part0 env))"
    unfolding main_part0_def
    by (intro terminal_finish) (rule hoare_stateOf, assumption, simp_all)
qed

text \<open>At the world in which the final concatenation fails, with the end of the trace.\<close>

theorem failures_terminal_witness:
  "terminal (trace (main mergeFails)) \<and> terminal (trace (main_part0 mergeFails)) \<and>
   drop 13 (trace (main mergeFails)) =
     [(Run (mergeArgs ''/tmp/filelist_1.txt'' ''out.mp4''), Some ''exit status 1''),
      (Print ''Error merging videos: exit status 1\<newline>'', None),
      (Remove ''text_transition_1.mp4'', None), (Close, None),
      (Remove ''/tmp/filelist_1.txt'', None), (RemoveAll ''tmp'', None)]"
  using failures_terminal [of mergeFails] mergeFails_trace by simp

subsection \<open>The examples, evaluated\<close>

lemma example_loadConfig: "loadConfig exampleEnv initial = Next exampleConfig exampleLoaded"
  by (simp add: loadConfig_def exampleEnv_def exampleLoaded_def)

lemma example_Source [simp]: "Source exampleConfig = [''clips/b.mp4'', ''clips/a.mp4'']"
  by (simp add: exampleConfig_def)

lemma scanConfig_Source [simp]: "Source scanConfig = []"
  by (simp add: scanConfig_def)

lemma example_loadVideos:
  "loadVideos exampleEnv exampleConfig exampleLoaded =
     Next [''clips/a.mp4'', ''clips/b.mp4''] exampleLoaded"
  by (simp add: loadVideos_def Let_def)

lemma example_loadVideos_part0:
  "loadVideos_part0 exampleEnv exampleConfig exampleLoaded =
     Next [''clips/b.mp4'', ''clips/a.mp4'']
       (Printf ''[clips/b.mp4 clips/a.mp4]\<newline>'' exampleLoaded)"
  by (simp add: loadVideos_part0_def Let_def)

lemma example_succeeded: "succeeded (main exampleEnv)" "succeeded (main_part0 exampleEnv)"
  by (simp_all add: succeeded_def allOk_def example_defs)

lemma example_lines:
  "entryLine ''clips/a.mp4'' = ''file '' @ [CHR 0x27] @ ''clips/a.mp4'' @ [CHR 0x27] @ ''\<newline>''"
  "entryLine (clipName 1) = ''file '' @ [CHR 0x27] @ ''text_transition_1.mp4'' @ [CHR 0x27] @ ''\<newline>''"
  by (simp_all add: entryLine_def clipName_def showNat.simps)

lemma example_scans:
  "Sscanf_hash_x3 ''#ffffff'' = ([255, 255, 255], None)"
  "Sscanf_hash_x3 ''#000000'' = ([0, 0, 0], None)"
  by (simp_all add: Sscanf_hash_x3_def advanceLit_def scanInt_def isSpace_def isSpace2_def isSpace3_def
      hexadecimalDigits_def parseHex_def hexval_def eval_nat_numeral)

lemma example_colours:
  "hexToRGBA ''#ffffff'' = \<lparr>rgbaR = 255, rgbaG = 255, rgbaB = 255, rgbaA = 255\<rparr>"
  "hexToRGBA ''#000000'' = \<lparr>rgbaR = 0, rgbaG = 0, rgbaB = 0, rgbaA = 255\<rparr>"
  by (simp_all add: hexToRGBA_def example_scans operand_def uint8_def)

lemma example_framePaths:
  "framePathOf ''tmp'' (Suc 0) 0 = ''tmp/text_1_frame_00000.png''"
  "framePathOf ''tmp'' (Suc 0) (Suc 0) = ''tmp/text_1_frame_00001.png''"
  by (simp_all add: framePathOf_def padNat_def showNat.simps eval_nat_numeral)

lemma example_transitionFrames:
  "transitionFrames exampleConfig label (Suc 0) video =
     [(''tmp/text_1_frame_00000.png'', exampleCard (label video)),
      (''tmp/text_1_frame_00001.png'', exampleCard (label video))]"
  by (simp add: transitionFrames_def numFramesOf_def exampleConfig_def exampleCard_def
      drawFrame_def upt_rec example_colours example_framePaths)

subsection \<open>The file list\<close>

lemma loadConfig_filelist:
  "hoare (\<lambda>s. filelist s = fl) (loadConfig env) (\<lambda>_ s. filelist s = fl) (\<lambda>_. True)"
  by (simp add: hoare_def loadConfig_def Let_def split: sum.splits)

lemma loadVideos_filelist:
  "hoare (\<lambda>s. filelist s = fl) (loadVideos env config) (\<lambda>_ s. filelist s = fl) (\<lambda>_. True)"
  by (simp add: hoare_def loadVideos_def Let_def split: sum.splits)

lemma loadVideos_part0_filelist:
  "hoare (\<lambda>s. filelist s = fl) (loadVideos_part0 env config) (\<lambda>_ s. filelist s = fl) (\<lambda>_. True)"
  by (simp add: hoare_def loadVideos_part0_def Let_def split: sum.splits)

lemma prepareDir_filelist:
  "hoare (\<lambda>s. filelist s = fl) (prepareDir env config) (\<lambda>_ s. filelist s = fl) (\<lambda>_. True)"
  by (simp add: hoare_def prepareDir_def Let_def split: prod.splits option.splits)

lemma loadFont_filelist:
  "hoare (\<lambda>s. filelist s = fl) (loadFont env config) (\<lambda>_ s. filelist s = fl) (\<lambda>_. True)"
  by (simp add: hoare_def loadFont_def Let_def split: option.splits)

lemma genFrames_filelist:
  "hoare (\<lambda>s. filelist s = fl) (genFrames label env config face tc bg ivs)
     (\<lambda>_ s. filelist s = fl) (\<lambda>_. True)"
  by (rule genFrames_inv, rule saveFrames_inv) simp_all

lemma createFileList_filelist:
  "hoare (\<lambda>s. filelist s = fl) (createFileList env) (\<lambda>_ s. filelist s = fl) (\<lambda>_. True)"
  by (simp add: hoare_def createFileList_def split: sum.splits)

lemma createFileList_part0_filelist:
  "hoare (\<lambda>s. filelist s = fl) (createFileList_part0 env) (\<lambda>_ s. filelist s = fl) (\<lambda>_. True)"
  by (simp add: hoare_def createFileList_part0_def split: option.splits)

lemma linesOf_simps [simp]:
  "linesOf [] = []"
  "linesOf ((i, video) # ivs) =
     (if i > 0 then [entryLine (clipName i)] else []) @ entryLine video # linesOf ivs"
  by (simp_all add: linesOf_def)

lemma fileListLoop_filelist:
  "hoare (\<lambda>s. filelist s = fl) (fileListLoop msg env config ivs)
     (\<lambda>_ s. filelist s = fl @ linesOf ivs) (\<lambda>_. True)"
  unfolding hoare_def
proof (induction ivs arbitrary: fl)
  case Nil
  show ?case by simp
next
  case (Cons iv ivs)
  obtain i video where iv: "iv = (i, video)" by (cases iv)
  show ?case
  proof (intro allI impI)
    fix s :: state assume s: "filelist s = fl"
    let ?mid = "fl @ (if i > 0 then [entryLine (clipName i)] else [])"
    let ?first = "if i > 0 then encodeTransition env config i s else Next () s"
    have first: "case ?first of Returned s' \<Rightarrow> True | Next x s' \<Rightarrow> filelist s' = ?mid"
      using s by (simp add: encodeTransition_def Let_def split: option.splits)
    show "case fileListLoop msg env config (iv # ivs) s of
        Returned s' \<Rightarrow> True | Next x s' \<Rightarrow> filelist s' = fl @ linesOf (iv # ivs)"
    proof (cases ?first)
      case (Returned s')
      with iv show ?thesis by simp
    next
      case (Next x s1)
      with first have s1: "filelist s1 = ?mid" by simp
      show ?thesis
      proof (cases "file_WriteString env (length (filelist s1)) (entryLine video)")
        case (Some e)
        with Next iv show ?thesis by (simp add: Let_def)
      next
        case None
        let ?s2 = "writeLine (entryLine video) (call (WriteString (entryLine video)) None s1)"
        have "filelist ?s2 = ?mid @ [entryLine video]" using s1 by simp
        with Cons [of "?mid @ [entryLine video]"]
        have "case fileListLoop msg env config ivs ?s2 of
            Returned s' \<Rightarrow> True
          | Next x s' \<Rightarrow> filelist s' = (?mid @ [entryLine video]) @ linesOf ivs"
          by blast
        with Next None iv show ?thesis
          by (simp add: Let_def split: flow.splits)
      qed
    qed
  qed
qed

lemma mergeVideos_filelist:
  "hoare (\<lambda>s. filelist s = fl) (mergeVideos env name output) (\<lambda>_ s. filelist s = fl) (\<lambda>_. True)"
  by (simp add: hoare_def mergeVideos_def Let_def split: option.splits)

lemma mergeVideos_part0_filelist:
  "hoare (\<lambda>s. filelist s = fl) (mergeVideos_part0 env name output) (\<lambda>_ s. filelist s = fl)
     (\<lambda>_. True)"
  by (simp add: hoare_def mergeVideos_part0_def Let_def split: option.splits)

lemma processVideos_filelist:
  "hoare (\<lambda>s. filelist s = []) (processVideos env config output videos)
     (\<lambda>_ s. filelist s = linesOf (enumerate 0 videos)) (\<lambda>_. True)"
  unfolding processVideos_def Let_def
  apply (rule hoare_andThen [OF prepareDir_filelist])
  apply (rule hoare_andThen [OF loadFont_filelist])
  apply (rule hoare_andThen [OF genFrames_filelist])
  apply (rule hoare_andThen [OF createFileList_filelist])
  apply (rule hoare_andThen [OF fileListLoop_filelist])
  apply (simp only: append_Nil)
  apply (rule mergeVideos_filelist)
  done

lemma processVideos_part0_filelist:
  "hoare (\<lambda>s. filelist s = []) (processVideos_part0 env config output tc bg videos)
     (\<lambda>_ s. filelist s = linesOf (enumerate 0 videos)) (\<lambda>_. True)"
  unfolding processVideos_part0_def
  apply (rule hoare_andThen [OF prepareDir_filelist])
  apply (rule hoare_andThen [OF loadFont_filelist])
  apply (rule hoare_andThen [OF genFrames_filelist])
  apply (rule hoare_andThen [OF createFileList_part0_filelist])
  apply (rule hoare_andThen [OF fileListLoop_filelist])
  apply (simp only: append_Nil)
  apply (rule mergeVideos_part0_filelist)
  done

lemma pairs_length:
  "length (concat (map (\<lambda>(i, v). [a i, b v]) (enumerate m vs))) = 2 * length vs"
  by (induction vs arbitrary: m) simp_all

lemma pairs_nth:
  "k < length vs \<Longrightarrow>
   concat (map (\<lambda>(i, v). [a i, b v]) (enumerate m vs)) ! (2 * k) = a (m + k) \<and>
   concat (map (\<lambda>(i, v). [a i, b v]) (enumerate m vs)) ! (2 * k + 1) = b (vs ! k)"
proof (induction vs arbitrary: m k)
  case Nil
  then show ?case by simp
next
  case (Cons v vs)
  show ?case
  proof (cases k)
    case 0
    then show ?thesis by simp
  next
    case (Suc k')
    with Cons.prems have "k' < length vs" by simp
    from Cons.IH [OF this, of "Suc m"] Suc show ?thesis by simp
  qed
qed

lemma linesOf_enumerate_Cons:
  "linesOf (enumerate 0 (v # vs)) =
     entryLine v #
     concat (map (\<lambda>(i, v). [entryLine (clipName i), entryLine v]) (enumerate (Suc 0) vs))"
proof -
  have "linesOf (enumerate m vs) =
      concat (map (\<lambda>(i, v). [entryLine (clipName i), entryLine v]) (enumerate m vs))"
    if "m > 0" for m
    using that by (induction vs arbitrary: m) simp_all
  then show ?thesis by simp
qed

lemma linesOf_shape:
  assumes "videos \<noteq> []"
  shows "length (linesOf (enumerate 0 videos)) = 2 * length videos - 1"
    and "k < length videos \<Longrightarrow> linesOf (enumerate 0 videos) ! (2 * k) = entryLine (videos ! k)"
    and "1 \<le> k \<Longrightarrow> k < length videos \<Longrightarrow>
         linesOf (enumerate 0 videos) ! (2 * k - 1) = entryLine (clipName k)"
proof -
  obtain v vs where videos: "videos = v # vs"
    using assms by (cases videos) auto
  let ?pairs = "concat (map (\<lambda>(i, v). [entryLine (clipName i), entryLine v]) (enumerate (Suc 0) vs))"
  have lines: "linesOf (enumerate 0 videos) = entryLine v # ?pairs"
    by (simp only: videos linesOf_enumerate_Cons)
  show "length (linesOf (enumerate 0 videos)) = 2 * length videos - 1"
    by (simp only: lines) (simp add: pairs_length videos)
  show "linesOf (enumerate 0 videos) ! (2 * k) = entryLine (videos ! k)" if "k < length videos"
  proof (cases k)
    case 0
    then show ?thesis by (simp only: lines) (simp add: videos)
  next
    case (Suc k')
    with that videos have "k' < length vs" by simp
    from pairs_nth [OF this, of "\<lambda>i. entryLine (clipName i)" entryLine "Suc 0"]
    show ?thesis by (simp only: lines) (simp add: videos Suc)
  qed
  show "linesOf (enumerate 0 videos) ! (2 * k - 1) = entryLine (clipName k)"
    if "1 \<le> k" "k < length videos"
  proof -
    from that obtain k' where k: "k = Suc k'" by (cases k) auto
    with that videos have "k' < length vs" by simp
    from pairs_nth [OF this, of "\<lambda>i. entryLine (clipName i)" entryLine "Suc 0"]
    show ?thesis by (simp only: lines) (simp add: k)
  qed
qed

lemma main_filelist:
  assumes cfg: "loadConfig env initial = Next config s1"
    and vids: "loadVideos env config s1 = Next videos s2"
    and ok: "succeeded (main env)"
  shows "filelist (main env) = linesOf (enumerate 0 videos)"
proof -
  let ?rest = "processVideos env config (outputPath env config) videos"
  have main: "main env = finish env (?rest s2)"
    by (simp add: main_def cfg vids Let_def)
  have s1: "okState s1 \<and> filelist s1 = []"
    using hoare_Next [OF hoare_conj [OF loadConfig_ok loadConfig_filelist] _ cfg] by simp
  have s2: "okState s2 \<and> filelist s2 = []"
    using hoare_Next [OF hoare_conj [OF loadVideos_ok loadVideos_filelist] _ vids] s1 by simp
  from succeeded_finish_Next [OF processVideos_ok, of s2 env env config "outputPath env config" videos]
    s2 ok main
  obtain x s' where rest: "?rest s2 = Next x s'" by auto
  from hoare_Next [OF processVideos_filelist _ rest] s2
  show ?thesis by (simp add: main rest finish_fields)
qed

lemma main_part0_filelist:
  assumes cfg: "loadConfig env initial = Next config s1"
    and vids: "loadVideos_part0 env config s1 = Next videos s2"
    and ok: "succeeded (main_part0 env)"
  shows "filelist (main_part0 env) = linesOf (enumerate 0 videos)"
proof -
  let ?rest = "processVideos_part0 env config (outputPath env config)
      (hexToRGBA (Color (Text config))) (hexToRGBA (Background (Text config))) videos"
  have main: "main_part0 env = finish env (?rest s2)"
    by (simp add: main_part0_def cfg vids Let_def)
  have s1: "okState s1 \<and> filelist s1 = []"
    using hoare_Next [OF hoare_conj [OF loadConfig_ok loadConfig_filelist] _ cfg] by simp
  have s2: "okState s2 \<and> filelist s2 = []"
    using hoare_Next [OF hoare_conj [OF loadVideos_part0_ok loadVideos_part0_filelist] _ vids] s1
    by simp
  from succeeded_finish_Next [OF processVideos_part0_ok, of s2 env env config "outputPath env config"
      "hexToRGBA (Color (Text config))" "hexToRGBA (Background (Text config))" videos]
    s2 ok main
  obtain x s' where rest: "?rest s2 = Next x s'" by auto
  from hoare_Next [OF processVideos_part0_filelist _ rest] s2
  show ?thesis by (simp add: main rest finish_fields)
qed

text \<open>
  \<open>%d\<close> prints the decimal numeral of the number, so the clips of different transitions
  have different names.
\<close>

lemma digit_char:
  "d < 10 \<Longrightarrow> isDigit (''0123456789'' ! d) \<and> of_char (''0123456789'' ! d) = (48 + d :: nat)"
proof -
  assume "d < 10"
  then have "d \<in> {0, 1, 2, 3, 4, 5, 6, 7, 8, 9}" by auto
  then show ?thesis by (auto simp: isDigit_def)
qed

lemma digit_zero: "d < 10 \<Longrightarrow> ''0123456789'' ! d = CHR ''0'' \<longleftrightarrow> d = 0"
proof -
  assume "d < 10"
  then have "d \<in> {0, 1, 2, 3, 4, 5, 6, 7, 8, 9}" by auto
  then show ?thesis by auto
qed

lemma readNat_snoc: "readNat (ds @ [c]) = 10 * readNat ds + (of_char c - 48)"
  by (simp add: readNat_def)

lemma showNat_decimal: "decimal (showNat n) n"
proof (induction n rule: showNat.induct)
  case (1 n)
  show ?case
  proof (cases "n < 10")
    case True
    with digit_char [of n] digit_zero [of n] show ?thesis
      by (simp add: showNat.simps [of n] decimal_def readNat_def)
  next
    case False
    let ?q = "showNat (n div 10)"
    from 1 False have IH: "decimal ?q (n div 10)" by simp
    have m: "n mod 10 < 10" by simp
    from IH have ne: "?q \<noteq> []" by (simp add: decimal_def)
    have "hd ?q \<noteq> CHR ''0''"
    proof
      assume "hd ?q = CHR ''0''"
      with IH have q: "?q = ''0''" unfolding decimal_def by blast
      from IH have r: "readNat ?q = n div 10" unfolding decimal_def by blast
      have "readNat ''0'' = 0" by (simp add: readNat_def)
      with q r have "n div 10 = 0" by simp
      with False show False by simp
    qed
    with IH ne digit_char [OF m] False show ?thesis
      by (simp add: showNat.simps [of n] decimal_def readNat_snoc)
  qed
qed

lemma showNat_examples: "showNat 7 = ''7''" "showNat 12 = ''12''" "showNat 120 = ''120''"
  by (simp_all add: showNat.simps)

lemma clip_line:
  "\<exists>ds. decimal ds k \<and>
     entryLine (clipName k) =
       ''file '' @ [CHR 0x27] @ ''text_transition_'' @ ds @ ''.mp4'' @ [CHR 0x27] @ ''\<newline>''"
  using showNat_decimal [of k] by (auto simp: entryLine_def clipName_def)

lemma video_line: "entryLine video = ''file '' @ [CHR 0x27] @ video @ [CHR 0x27] @ ''\<newline>''"
  by (simp add: entryLine_def)

lemma example_filelist:
  "filelist (main exampleEnv) =
     [''file '' @ [CHR 0x27] @ ''clips/a.mp4'' @ [CHR 0x27] @ ''\<newline>'',
      ''file '' @ [CHR 0x27] @ ''text_transition_1.mp4'' @ [CHR 0x27] @ ''\<newline>'',
      ''file '' @ [CHR 0x27] @ ''clips/b.mp4'' @ [CHR 0x27] @ ''\<newline>'']"
  "filelist (main_part0 exampleEnv) =
     [''file '' @ [CHR 0x27] @ ''clips/b.mp4'' @ [CHR 0x27] @ ''\<newline>'',
      ''file '' @ [CHR 0x27] @ ''text_transition_1.mp4'' @ [CHR 0x27] @ ''\<newline>'',
      ''file '' @ [CHR 0x27] @ ''clips/a.mp4'' @ [CHR 0x27] @ ''\<newline>'']"
  using main_filelist [OF example_loadConfig example_loadVideos example_succeeded(1)]
    main_part0_filelist [OF example_loadConfig example_loadVideos_part0 example_succeeded(2)]
  by (simp_all add: entryLine_def clipName_def showNat.simps)

text \<open>
  C1. When a run loads a non-empty list of \<open>n\<close> videos and nothing fails, the file list
  holds \<open>2n - 1\<close> entries. Entry \<open>2k\<close> is the line of video \<open>k\<close>: the word \<open>file\<close>, a
  space, and the path of the video between single quotes, ended by a newline. Entry
  \<open>2k - 1\<close>, for \<open>k\<close> from 1, is the line of transition \<open>k\<close>, which has
  \<open>text_transition_\<close>, the decimal numeral of \<open>k\<close> and \<open>.mp4\<close> between the quotes. That is
  video 0, transition 1, video 1, and so on up to video \<open>n - 1\<close>. This holds of both
  files, each with the list its own way of loading yields.
\<close>

theorem file_list_entries:
  "(loadConfig env initial = Next config s1 \<and> loadVideos env config s1 = Next videos s2 \<and>
    videos \<noteq> [] \<and> succeeded (main env) \<longrightarrow>
      length (filelist (main env)) = 2 * length videos - 1 \<and>
      (\<forall>k<length videos. filelist (main env) ! (2 * k) =
         ''file '' @ [CHR 0x27] @ videos ! k @ [CHR 0x27] @ ''\<newline>'') \<and>
      (\<forall>k. 1 \<le> k \<and> k < length videos \<longrightarrow>
         (\<exists>ds. decimal ds k \<and> filelist (main env) ! (2 * k - 1) =
            ''file '' @ [CHR 0x27] @ ''text_transition_'' @ ds @ ''.mp4'' @ [CHR 0x27] @
            ''\<newline>''))) \<and>
   (loadConfig env initial = Next config s1 \<and> loadVideos_part0 env config s1 = Next videos s2 \<and>
    videos \<noteq> [] \<and> succeeded (main_part0 env) \<longrightarrow>
      length (filelist (main_part0 env)) = 2 * length videos - 1 \<and>
      (\<forall>k<length videos. filelist (main_part0 env) ! (2 * k) =
         ''file '' @ [CHR 0x27] @ videos ! k @ [CHR 0x27] @ ''\<newline>'') \<and>
      (\<forall>k. 1 \<le> k \<and> k < length videos \<longrightarrow>
         (\<exists>ds. decimal ds k \<and> filelist (main_part0 env) ! (2 * k - 1) =
            ''file '' @ [CHR 0x27] @ ''text_transition_'' @ ds @ ''.mp4'' @ [CHR 0x27] @
            ''\<newline>'')))"
proof (intro conjI impI)
  assume a: "loadConfig env initial = Next config s1 \<and> loadVideos env config s1 = Next videos s2 \<and>
    videos \<noteq> [] \<and> succeeded (main env)"
  then have fl: "filelist (main env) = linesOf (enumerate 0 videos)"
    using main_filelist [of env config s1 videos s2] by simp
  from a have ne: "videos \<noteq> []" by simp
  show "length (filelist (main env)) = 2 * length videos - 1"
    by (simp only: fl linesOf_shape(1) [OF ne])
  show "\<forall>k<length videos. filelist (main env) ! (2 * k) =
      ''file '' @ [CHR 0x27] @ videos ! k @ [CHR 0x27] @ ''\<newline>''"
    by (simp only: fl) (simp add: linesOf_shape(2) [OF ne] video_line)
  show "\<forall>k. 1 \<le> k \<and> k < length videos \<longrightarrow>
      (\<exists>ds. decimal ds k \<and> filelist (main env) ! (2 * k - 1) =
         ''file '' @ [CHR 0x27] @ ''text_transition_'' @ ds @ ''.mp4'' @ [CHR 0x27] @ ''\<newline>'')"
  proof (intro allI impI)
    fix k assume k: "1 \<le> k \<and> k < length videos"
    then have "1 \<le> k" "k < length videos" by simp_all
    from linesOf_shape(3) [OF ne this]
    have "filelist (main env) ! (2 * k - 1) = entryLine (clipName k)"
      by (simp only: fl)
    with clip_line [of k] show "\<exists>ds. decimal ds k \<and> filelist (main env) ! (2 * k - 1) =
        ''file '' @ [CHR 0x27] @ ''text_transition_'' @ ds @ ''.mp4'' @ [CHR 0x27] @ ''\<newline>''"
      by simp
  qed
next
  assume a: "loadConfig env initial = Next config s1 \<and>
    loadVideos_part0 env config s1 = Next videos s2 \<and> videos \<noteq> [] \<and> succeeded (main_part0 env)"
  then have fl: "filelist (main_part0 env) = linesOf (enumerate 0 videos)"
    using main_part0_filelist [of env config s1 videos s2] by simp
  from a have ne: "videos \<noteq> []" by simp
  show "length (filelist (main_part0 env)) = 2 * length videos - 1"
    by (simp only: fl linesOf_shape(1) [OF ne])
  show "\<forall>k<length videos. filelist (main_part0 env) ! (2 * k) =
      ''file '' @ [CHR 0x27] @ videos ! k @ [CHR 0x27] @ ''\<newline>''"
    by (simp only: fl) (simp add: linesOf_shape(2) [OF ne] video_line)
  show "\<forall>k. 1 \<le> k \<and> k < length videos \<longrightarrow>
      (\<exists>ds. decimal ds k \<and> filelist (main_part0 env) ! (2 * k - 1) =
         ''file '' @ [CHR 0x27] @ ''text_transition_'' @ ds @ ''.mp4'' @ [CHR 0x27] @ ''\<newline>'')"
  proof (intro allI impI)
    fix k assume k: "1 \<le> k \<and> k < length videos"
    then have "1 \<le> k" "k < length videos" by simp_all
    from linesOf_shape(3) [OF ne this]
    have "filelist (main_part0 env) ! (2 * k - 1) = entryLine (clipName k)"
      by (simp only: fl)
    with clip_line [of k] show "\<exists>ds. decimal ds k \<and> filelist (main_part0 env) ! (2 * k - 1) =
        ''file '' @ [CHR 0x27] @ ''text_transition_'' @ ds @ ''.mp4'' @ [CHR 0x27] @ ''\<newline>''"
      by simp
  qed
qed

text \<open>
  At the example, in \<open>video_merger.go\<close> (which sorts the list) and in \<open>unnamed/part_000\<close>
  (which does not): three lines, the second that of transition 1.
\<close>

theorem file_list_entries_witness:
  "loadConfig exampleEnv initial = Next exampleConfig exampleLoaded \<and>
   loadVideos exampleEnv exampleConfig exampleLoaded =
     Next [''clips/a.mp4'', ''clips/b.mp4''] exampleLoaded \<and>
   succeeded (main exampleEnv) \<and>
   length (filelist (main exampleEnv)) = 3 \<and>
   filelist (main exampleEnv) ! 0 = ''file '' @ [CHR 0x27] @ ''clips/a.mp4'' @ [CHR 0x27] @ ''\<newline>'' \<and>
   filelist (main exampleEnv) ! 1 =
     ''file '' @ [CHR 0x27] @ ''text_transition_1.mp4'' @ [CHR 0x27] @ ''\<newline>'' \<and>
   filelist (main exampleEnv) ! 2 = ''file '' @ [CHR 0x27] @ ''clips/b.mp4'' @ [CHR 0x27] @ ''\<newline>'' \<and>
   decimal ''1'' 1 \<and>
   loadVideos_part0 exampleEnv exampleConfig exampleLoaded =
     Next [''clips/b.mp4'', ''clips/a.mp4'']
       (Printf ''[clips/b.mp4 clips/a.mp4]\<newline>'' exampleLoaded) \<and>
   succeeded (main_part0 exampleEnv) \<and>
   length (filelist (main_part0 exampleEnv)) = 3 \<and>
   filelist (main_part0 exampleEnv) ! 0 = ''file '' @ [CHR 0x27] @ ''clips/b.mp4'' @ [CHR 0x27] @ ''\<newline>'' \<and>
   filelist (main_part0 exampleEnv) ! 1 =
     ''file '' @ [CHR 0x27] @ ''text_transition_1.mp4'' @ [CHR 0x27] @ ''\<newline>'' \<and>
   filelist (main_part0 exampleEnv) ! 2 = ''file '' @ [CHR 0x27] @ ''clips/a.mp4'' @ [CHR 0x27] @ ''\<newline>''"
proof -
  note hyps = example_loadConfig example_loadVideos example_loadVideos_part0 example_succeeded
  let ?sorted = "[''clips/a.mp4'', ''clips/b.mp4'']"
  let ?given = "[''clips/b.mp4'', ''clips/a.mp4'']"
  from file_list_entries [of exampleEnv exampleConfig exampleLoaded ?sorted exampleLoaded] hyps
  have len: "length (filelist (main exampleEnv)) = 2 * length ?sorted - 1"
    and even: "\<And>k. k < length ?sorted \<Longrightarrow>
      filelist (main exampleEnv) ! (2 * k) =
        ''file '' @ [CHR 0x27] @ ?sorted ! k @ [CHR 0x27] @ ''\<newline>''"
    by simp_all
  from file_list_entries [of exampleEnv exampleConfig exampleLoaded ?given
      "Printf ''[clips/b.mp4 clips/a.mp4]\<newline>'' exampleLoaded"] hyps
  have len0: "length (filelist (main_part0 exampleEnv)) = 2 * length ?given - 1"
    and even0: "\<And>k. k < length ?given \<Longrightarrow>
      filelist (main_part0 exampleEnv) ! (2 * k) =
        ''file '' @ [CHR 0x27] @ ?given ! k @ [CHR 0x27] @ ''\<newline>''"
    by simp_all
  have one: "decimal ''1'' 1" using showNat_decimal [of 1] by (simp add: showNat.simps)
  have odd: "filelist (main exampleEnv) ! 1 =
      ''file '' @ [CHR 0x27] @ ''text_transition_1.mp4'' @ [CHR 0x27] @ ''\<newline>''"
    "filelist (main_part0 exampleEnv) ! 1 =
      ''file '' @ [CHR 0x27] @ ''text_transition_1.mp4'' @ [CHR 0x27] @ ''\<newline>''"
    by (simp_all add: example_filelist)
  from len even [of 0] even [of 1] len0 even0 [of 0] even0 [of 1] one odd hyps
  show ?thesis by simp
qed

subsection \<open>The frames\<close>

lemma framesOf_simps [simp]:
  "framesOf (call f r s) = framesOf s @ savedFrame (f, r)" "framesOf (Printf m s) = framesOf s"
  "framesOf (writeLine l s) = framesOf s" "framesOf (create p s) = framesOf s"
  "framesOf (deferCall d s) = framesOf s" "framesOf initial = []"
  "framesOf (createAll ps s) = framesOf s" "framesOf (leave env p s) = framesOf s"
  by (simp_all add: framesOf_def Printf_def)

lemma cleanup_no_frames:
  "list_all isCleanup ds \<Longrightarrow> concat (map savedFrame (map (\<lambda>d. (d, None)) ds)) = []"
  by (induction ds) (auto elim: isCleanup.elims)

lemma framesOf_finish:
  "list_all isCleanup (deferred (stateOf f)) \<Longrightarrow> framesOf (finish env f) = framesOf (stateOf f)"
  using cleanup_no_frames [of "deferred (stateOf f)"] by (simp add: framesOf_def finish_fields)

lemma loadConfig_frames:
  "hoare (\<lambda>s. framesOf s = fr) (loadConfig env) (\<lambda>_ s. framesOf s = fr) (\<lambda>_. True)"
  by (simp add: hoare_def loadConfig_def Let_def split: sum.splits)

lemma loadVideos_frames:
  "hoare (\<lambda>s. framesOf s = fr) (loadVideos env config) (\<lambda>_ s. framesOf s = fr) (\<lambda>_. True)"
  by (simp add: hoare_def loadVideos_def Let_def split: sum.splits)

lemma loadVideos_part0_frames:
  "hoare (\<lambda>s. framesOf s = fr) (loadVideos_part0 env config) (\<lambda>_ s. framesOf s = fr) (\<lambda>_. True)"
  by (simp add: hoare_def loadVideos_part0_def Let_def split: sum.splits)

lemma prepareDir_frames:
  "hoare (\<lambda>s. framesOf s = fr) (prepareDir env config) (\<lambda>_ s. framesOf s = fr) (\<lambda>_. True)"
  by (simp add: hoare_def prepareDir_def Let_def split: prod.splits option.splits)

lemma loadFont_frames:
  "hoare (\<lambda>s. framesOf s = fr) (loadFont env config)
     (\<lambda>face s. face = Face (Path (Font config)) (Size (Font config)) \<and> framesOf s = fr) (\<lambda>_. True)"
  by (simp add: hoare_def loadFont_def Let_def split: option.splits)

lemma saveFrames_frames:
  "hoare (\<lambda>s. framesOf s = fr) (saveFrames env config face tc bg text i js)
     (\<lambda>_ s. framesOf s = fr @ map (\<lambda>j. (framePathOf (IntermediateTextDir (Dest config)) i j,
        drawFrame config face tc bg text)) js) (\<lambda>_. True)"
  unfolding hoare_def
proof (induction js arbitrary: fr)
  case Nil
  show ?case by simp
next
  case (Cons j js)
  let ?p = "framePathOf (IntermediateTextDir (Dest config)) i j"
  let ?dc = "drawFrame config face tc bg text"
  show ?case
  proof (intro allI impI)
    fix s :: state assume s: "framesOf s = fr"
    let ?s1 = "create ?p (call (SavePNG ?p ?dc) None s)"
    have "framesOf ?s1 = fr @ [(?p, ?dc)]" using s by simp
    with Cons [of "fr @ [(?p, ?dc)]"]
    have "case saveFrames env config face tc bg text i js ?s1 of
        Returned s' \<Rightarrow> True
      | Next x s' \<Rightarrow> framesOf s' = (fr @ [(?p, ?dc)]) @
          map (\<lambda>j. (framePathOf (IntermediateTextDir (Dest config)) i j, ?dc)) js"
      by blast
    then show "case saveFrames env config face tc bg text i (j # js) s of
        Returned s' \<Rightarrow> True
      | Next x s' \<Rightarrow> framesOf s' = fr @
          map (\<lambda>j. (framePathOf (IntermediateTextDir (Dest config)) i j, ?dc)) (j # js)"
      by (simp add: Let_def split: option.splits flow.splits)
  qed
qed

lemma genFrames_frames:
  "hoare (\<lambda>s. framesOf s = fr)
     (genFrames label env config (Face (Path (Font config)) (Size (Font config)))
        (hexToRGBA (Color (Text config))) (hexToRGBA (Background (Text config))) ivs)
     (\<lambda>_ s. framesOf s = fr @
        concat (map (\<lambda>(i, video). if i = 0 then [] else transitionFrames config label i video) ivs))
     (\<lambda>_. True)"
  unfolding hoare_def
proof (induction ivs arbitrary: fr)
  case Nil
  show ?case by simp
next
  case (Cons iv ivs)
  obtain i video where iv: "iv = (i, video)" by (cases iv)
  let ?face = "Face (Path (Font config)) (Size (Font config))"
  let ?tc = "hexToRGBA (Color (Text config))"
  let ?bg = "hexToRGBA (Background (Text config))"
  let ?all = "\<lambda>ivs. concat (map (\<lambda>(i, video).
      if i = 0 then [] else transitionFrames config label i video) ivs)"
  show ?case
  proof (intro allI impI)
    fix s :: state assume s: "framesOf s = fr"
    show "case genFrames label env config ?face ?tc ?bg (iv # ivs) s of
        Returned s' \<Rightarrow> True | Next x s' \<Rightarrow> framesOf s' = fr @ ?all (iv # ivs)"
    proof (cases "i = 0")
      case True
      from Cons [of fr] s
      have "case genFrames label env config ?face ?tc ?bg ivs s of
          Returned s' \<Rightarrow> True | Next x s' \<Rightarrow> framesOf s' = fr @ ?all ivs"
        by blast
      with True iv show ?thesis by (simp split: flow.splits)
    next
      case False
      let ?inner = "saveFrames env config ?face ?tc ?bg (label video) i
          [0..<nat (sint (Rate (Frame config) * Duration (Text config)))] s"
      show ?thesis
      proof (cases ?inner)
        case (Returned s')
        with False iv show ?thesis by (simp add: Let_def)
      next
        case (Next x s')
        from hoare_Next [OF saveFrames_frames s Next]
        have "framesOf s' = fr @ transitionFrames config label i video"
          by (simp add: transitionFrames_def numFramesOf_def)
        with Cons [of "fr @ transitionFrames config label i video"]
        have "case genFrames label env config ?face ?tc ?bg ivs s' of
            Returned s' \<Rightarrow> True
          | Next x s' \<Rightarrow> framesOf s' = (fr @ transitionFrames config label i video) @ ?all ivs"
          by blast
        with Next False iv show ?thesis
          by (simp add: Let_def split: flow.splits)
      qed
    qed
  qed
qed

lemma createFileList_frames:
  "hoare (\<lambda>s. framesOf s = fr) (createFileList env) (\<lambda>_ s. framesOf s = fr) (\<lambda>_. True)"
  by (simp add: hoare_def createFileList_def split: sum.splits)

lemma createFileList_part0_frames:
  "hoare (\<lambda>s. framesOf s = fr) (createFileList_part0 env) (\<lambda>_ s. framesOf s = fr) (\<lambda>_. True)"
  by (simp add: hoare_def createFileList_part0_def split: option.splits)

lemma encodeTransition_frames:
  "hoare (\<lambda>s. framesOf s = fr) (encodeTransition env config i) (\<lambda>_ s. framesOf s = fr) (\<lambda>_. True)"
  by (simp add: hoare_def encodeTransition_def Let_def split: option.splits)

lemma fileListLoop_frames:
  "hoare (\<lambda>s. framesOf s = fr) (fileListLoop msg env config ivs) (\<lambda>_ s. framesOf s = fr)
     (\<lambda>_. True)"
  by (rule fileListLoop_inv [OF encodeTransition_frames]) simp_all

lemma mergeVideos_frames:
  "hoare (\<lambda>s. framesOf s = fr) (mergeVideos env name output) (\<lambda>_ s. framesOf s = fr) (\<lambda>_. True)"
  by (simp add: hoare_def mergeVideos_def Let_def split: option.splits)

lemma mergeVideos_part0_frames:
  "hoare (\<lambda>s. framesOf s = fr) (mergeVideos_part0 env name output) (\<lambda>_ s. framesOf s = fr)
     (\<lambda>_. True)"
  by (simp add: hoare_def mergeVideos_part0_def Let_def split: option.splits)

lemma processVideos_frames:
  "hoare (\<lambda>s. framesOf s = []) (processVideos env config output videos)
     (\<lambda>_ s. framesOf s = concat (map (\<lambda>(i, video).
        if i = 0 then [] else transitionFrames config transitionText i video) (enumerate 0 videos)))
     (\<lambda>_. True)"
  unfolding processVideos_def Let_def
  apply (rule hoare_andThen [OF prepareDir_frames])
  apply (rule hoare_andThen [OF loadFont_frames])
  apply (rule hoare_assume)
  apply hypsubst
  apply (rule hoare_andThen [OF genFrames_frames])
  apply (simp only: append_Nil)
  apply (rule hoare_andThen [OF createFileList_frames])
  apply (rule hoare_andThen [OF fileListLoop_frames])
  apply (rule mergeVideos_frames)
  done

lemma processVideos_part0_frames:
  "hoare (\<lambda>s. framesOf s = [])
     (processVideos_part0 env config output (hexToRGBA (Color (Text config)))
        (hexToRGBA (Background (Text config))) videos)
     (\<lambda>_ s. framesOf s = concat (map (\<lambda>(i, video).
        if i = 0 then [] else transitionFrames config transitionText_part0 i video)
          (enumerate 0 videos)))
     (\<lambda>_. True)"
  unfolding processVideos_part0_def
  apply (rule hoare_andThen [OF prepareDir_frames])
  apply (rule hoare_andThen [OF loadFont_frames])
  apply (rule hoare_assume)
  apply hypsubst
  apply (rule hoare_andThen [OF genFrames_frames])
  apply (simp only: append_Nil)
  apply (rule hoare_andThen [OF createFileList_part0_frames])
  apply (rule hoare_andThen [OF fileListLoop_frames])
  apply (rule mergeVideos_part0_frames)
  done

lemma enumerate_nth: "enumerate 0 vs = map (\<lambda>i. (i, vs ! i)) [0..<length vs]"
  by (rule nth_equalityI) (simp_all add: nth_enumerate_eq)

lemma transitions_by_index:
  "concat (map (\<lambda>(i, v). if i = 0 then [] else F i v) (enumerate 0 vs)) =
   concat (map (\<lambda>i. F i (vs ! i)) [1..<length vs])"
proof (cases vs)
  case Nil
  then show ?thesis by simp
next
  case (Cons v vs')
  have upt: "[0..<length vs] = 0 # [1..<length vs]"
    using Cons by (simp add: upt_rec)
  have "concat (map (\<lambda>(i, v). if i = 0 then [] else F i v) (enumerate 0 vs)) =
      concat (map (\<lambda>i. if i = 0 then [] else F i (vs ! i)) [Suc 0..<length vs])"
    by (simp add: enumerate_nth upt comp_def del: upt_Suc)
  also have "map (\<lambda>i. if i = 0 then [] else F i (vs ! i)) [Suc 0..<length vs] =
      map (\<lambda>i. F i (vs ! i)) [Suc 0..<length vs]"
    by (rule map_cong) auto
  finally show ?thesis by simp
qed

lemma main_frames:
  assumes cfg: "loadConfig env initial = Next config s1"
    and vids: "loadVideos env config s1 = Next videos s2"
    and ok: "succeeded (main env)"
  shows "framesOf (main env) =
     concat (map (\<lambda>i. transitionFrames config transitionText i (videos ! i)) [1..<length videos])"
proof -
  let ?rest = "processVideos env config (outputPath env config) videos"
  have main: "main env = finish env (?rest s2)"
    by (simp add: main_def cfg vids Let_def)
  have s1: "okState s1 \<and> framesOf s1 = []"
    using hoare_Next [OF hoare_conj [OF loadConfig_ok loadConfig_frames] _ cfg] by simp
  have s2: "okState s2 \<and> framesOf s2 = []"
    using hoare_Next [OF hoare_conj [OF loadVideos_ok loadVideos_frames] _ vids] s1 by simp
  from succeeded_finish_Next [OF processVideos_ok, of s2 env env config "outputPath env config" videos]
    s2 ok main
  obtain x s' where rest: "?rest s2 = Next x s'" by auto
  from hoare_Next [OF processVideos_ok _ rest] s2 have "okState s'" by simp
  then have "framesOf (main env) = framesOf s'"
    using framesOf_finish [of "?rest s2"] by (simp add: main rest okState_cleanup)
  with hoare_Next [OF processVideos_frames _ rest] s2
  show ?thesis by (simp add: transitions_by_index)
qed

lemma main_part0_frames:
  assumes cfg: "loadConfig env initial = Next config s1"
    and vids: "loadVideos_part0 env config s1 = Next videos s2"
    and ok: "succeeded (main_part0 env)"
  shows "framesOf (main_part0 env) =
     concat (map (\<lambda>i. transitionFrames config transitionText_part0 i (videos ! i))
       [1..<length videos])"
proof -
  let ?rest = "processVideos_part0 env config (outputPath env config)
      (hexToRGBA (Color (Text config))) (hexToRGBA (Background (Text config))) videos"
  have main: "main_part0 env = finish env (?rest s2)"
    by (simp add: main_part0_def cfg vids Let_def)
  have s1: "okState s1 \<and> framesOf s1 = []"
    using hoare_Next [OF hoare_conj [OF loadConfig_ok loadConfig_frames] _ cfg] by simp
  have s2: "okState s2 \<and> framesOf s2 = []"
    using hoare_Next [OF hoare_conj [OF loadVideos_part0_ok loadVideos_part0_frames] _ vids] s1
    by simp
  from succeeded_finish_Next [OF processVideos_part0_ok, of s2 env env config "outputPath env config"
      "hexToRGBA (Color (Text config))" "hexToRGBA (Background (Text config))" videos]
    s2 ok main
  obtain x s' where rest: "?rest s2 = Next x s'" by auto
  from hoare_Next [OF processVideos_part0_ok _ rest] s2 have "okState s'" by simp
  then have "framesOf (main_part0 env) = framesOf s'"
    using framesOf_finish [of "?rest s2"] by (simp add: main rest okState_cleanup)
  with hoare_Next [OF processVideos_part0_frames _ rest] s2
  show ?thesis by (simp add: transitions_by_index)
qed

lemma transitionFrames_identical:
  "length (transitionFrames config label i video) =
     nat (sint (Rate (Frame config) * Duration (Text config))) \<and>
   map snd (transitionFrames config label i video) =
     replicate (nat (sint (Rate (Frame config) * Duration (Text config))))
       (drawFrame config (Face (Path (Font config)) (Size (Font config)))
          (hexToRGBA (Color (Text config))) (hexToRGBA (Background (Text config))) (label video))"
  by (simp add: transitionFrames_def numFramesOf_def comp_def map_replicate_const)

lemma numFrames_product:
  fixes rate duration :: "64 word"
  assumes "0 \<le> sint rate * sint duration" and "sint rate * sint duration < 2 ^ 63"
  shows "int (nat (sint (rate * duration))) = sint rate * sint duration"
proof -
  have "sint (rate * duration) = signed_take_bit 63 (sint rate * sint duration)"
    by (simp add: sint_word_ariths)
  also have "\<dots> = sint rate * sint duration"
    using assms by (simp add: signed_take_bit_int_eq_self)
  finally show ?thesis using assms by simp
qed

text \<open>
  C6. When nothing fails, the frames a run saves are, for every video after the first
  and in that order, the frames of its transition, and nothing else. A transition has
  \<open>Rate * Duration\<close> frames, the product being the one the machine computes (none when it
  is not positive), which is the product of the two numbers whenever that is not
  negative and fits the type; and every frame of a transition is the same drawing:
  same size, same background, same text with the same colour, face, position and anchor.
\<close>

theorem transition_frames:
  "(loadConfig env initial = Next config s1 \<and> loadVideos env config s1 = Next videos s2 \<and>
    succeeded (main env) \<longrightarrow>
      framesOf (main env) =
        concat (map (\<lambda>i. transitionFrames config transitionText i (videos ! i))
          [1..<length videos])) \<and>
   (loadConfig env initial = Next config s1 \<and> loadVideos_part0 env config s1 = Next videos s2 \<and>
    succeeded (main_part0 env) \<longrightarrow>
      framesOf (main_part0 env) =
        concat (map (\<lambda>i. transitionFrames config transitionText_part0 i (videos ! i))
          [1..<length videos])) \<and>
   length (transitionFrames config label i video) =
     nat (sint (Rate (Frame config) * Duration (Text config))) \<and>
   map snd (transitionFrames config label i video) =
     replicate (nat (sint (Rate (Frame config) * Duration (Text config))))
       (drawFrame config (Face (Path (Font config)) (Size (Font config)))
          (hexToRGBA (Color (Text config))) (hexToRGBA (Background (Text config))) (label video)) \<and>
   (0 \<le> sint (Rate (Frame config)) * sint (Duration (Text config)) \<and>
    sint (Rate (Frame config)) * sint (Duration (Text config)) < 2 ^ 63 \<longrightarrow>
      int (length (transitionFrames config label i video)) =
        sint (Rate (Frame config)) * sint (Duration (Text config)))"
  using main_frames [of env config s1 videos s2] main_part0_frames [of env config s1 videos s2]
    transitionFrames_identical [of config label i video]
    numFrames_product [of "Rate (Frame config)" "Duration (Text config)"]
  by simp

theorem transition_frames_witness:
  "loadConfig exampleEnv initial = Next exampleConfig exampleLoaded \<and>
   loadVideos exampleEnv exampleConfig exampleLoaded =
     Next [''clips/a.mp4'', ''clips/b.mp4''] exampleLoaded \<and>
   succeeded (main exampleEnv) \<and>
   framesOf (main exampleEnv) =
     [(''tmp/text_1_frame_00000.png'', exampleCard ''Next: b.mp4''),
      (''tmp/text_1_frame_00001.png'', exampleCard ''Next: b.mp4'')] \<and>
   loadVideos_part0 exampleEnv exampleConfig exampleLoaded =
     Next [''clips/b.mp4'', ''clips/a.mp4'']
       (Printf ''[clips/b.mp4 clips/a.mp4]\<newline>'' exampleLoaded) \<and>
   succeeded (main_part0 exampleEnv) \<and>
   framesOf (main_part0 exampleEnv) =
     [(''tmp/text_1_frame_00000.png'', exampleCard ''Next: clips/a.mp4''),
      (''tmp/text_1_frame_00001.png'', exampleCard ''Next: clips/a.mp4'')] \<and>
   sint (Rate (Frame exampleConfig)) * sint (Duration (Text exampleConfig)) = 2"
proof -
  note hyps = example_loadConfig example_loadVideos example_loadVideos_part0 example_succeeded
  have texts: "transitionText ''clips/b.mp4'' = ''Next: b.mp4''"
    "transitionText_part0 ''clips/a.mp4'' = ''Next: clips/a.mp4''"
    by (simp_all add: transitionText_def transitionText_part0_def Base_def)
  from transition_frames [of exampleEnv exampleConfig exampleLoaded
      "[''clips/a.mp4'', ''clips/b.mp4'']" exampleLoaded] hyps
  have "framesOf (main exampleEnv) =
      transitionFrames exampleConfig transitionText (Suc 0) ''clips/b.mp4''"
    by (simp add: upt_rec)
  moreover
  from transition_frames [of exampleEnv exampleConfig exampleLoaded
      "[''clips/b.mp4'', ''clips/a.mp4'']"
      "Printf ''[clips/b.mp4 clips/a.mp4]\<newline>'' exampleLoaded"] hyps
  have "framesOf (main_part0 exampleEnv) =
      transitionFrames exampleConfig transitionText_part0 (Suc 0) ''clips/a.mp4''"
    by (simp add: upt_rec)
  ultimately show ?thesis
    using hyps by (simp add: example_transitionFrames texts) (simp add: exampleConfig_def)
qed

text \<open>
  In \<open>video_merger.go\<close> the text of every frame of a transition is \<open>Next:\<close> and the base
  name of the video that follows.
\<close>

lemma main_text_base_name:
  "fr \<in> set (transitionFrames config transitionText i video) \<Longrightarrow>
   dcText (snd fr) = ''Next: '' @ Base video"
  by (auto simp: transitionFrames_def drawFrame_def transitionText_def)

text \<open>
  C8. The claim: the text of transition \<open>i\<close> shows the base name of video \<open>i\<close>. In
  \<open>unnamed/part_000\<close> the text is \<open>Next:\<close> and the path as it is: with the videos
  \<open>clips/b.mp4\<close> and \<open>clips/a.mp4\<close> the text of transition 1 is \<open>Next: clips/a.mp4\<close>,
  where the base name is \<open>a.mp4\<close>. (Of \<open>video_merger.go\<close> the claim holds, by
  \<open>main_text_base_name\<close>.)
\<close>

theorem part0_text_shows_path:
  "loadVideos_part0 exampleEnv exampleConfig exampleLoaded =
     Next [''clips/b.mp4'', ''clips/a.mp4'']
       (Printf ''[clips/b.mp4 clips/a.mp4]\<newline>'' exampleLoaded) \<and>
   map (\<lambda>fr. dcText (snd fr)) (framesOf (main_part0 exampleEnv)) =
     [''Next: clips/a.mp4'', ''Next: clips/a.mp4''] \<and>
   Base ''clips/a.mp4'' = ''a.mp4''"
proof -
  have "framesOf (main_part0 exampleEnv) =
      concat (map (\<lambda>i. transitionFrames exampleConfig transitionText_part0 i
        ([''clips/b.mp4'', ''clips/a.mp4''] ! i)) [1..<length [''clips/b.mp4'', ''clips/a.mp4'']])"
    by (rule main_part0_frames [OF example_loadConfig example_loadVideos_part0
          example_succeeded(2)])
  then have "framesOf (main_part0 exampleEnv) =
      transitionFrames exampleConfig transitionText_part0 (Suc 0) ''clips/a.mp4''"
    by (simp add: upt_rec)
  then show ?thesis
    using example_loadVideos_part0
    by (simp add: example_transitionFrames exampleCard_def transitionText_part0_def Base_def)
qed

subsection \<open>Loading the videos\<close>

lemma noScan_simps [simp]:
  "noScan (call f r s) \<longleftrightarrow> \<not> isScan f \<and> noScan s" "noScan (Printf m s) = noScan s"
  "noScan (writeLine l s) = noScan s" "noScan (create p s) = noScan s"
  "noScan (deferCall d s) \<longleftrightarrow> isCleanup d \<and> noScan s" "noScan initial"
  "noScan (createAll ps s) = noScan s" "noScan (leave env p s) = noScan s"
  by (auto simp: noScan_def Printf_def)

lemma cleanup_noScan:
  "list_all isCleanup ds \<Longrightarrow> list_all (\<lambda>ev. \<not> isScan (fst ev)) (map (\<lambda>d. (d, None)) ds)"
  by (induction ds) (auto elim: isCleanup.elims)

lemma noScan_finish: "noScan (stateOf f) \<Longrightarrow> noScan (finish env f)"
  using cleanup_noScan [of "deferred (stateOf f)"] by (simp add: noScan_def finish_fields)

lemma loadConfig_noScan: "hoare noScan (loadConfig env) (\<lambda>_. noScan) noScan"
  by (simp add: hoare_def loadConfig_def Let_def split: sum.splits)

lemma prepareDir_noScan: "hoare noScan (prepareDir env config) (\<lambda>_. noScan) noScan"
  by (simp add: hoare_def prepareDir_def Let_def split: prod.splits option.splits)

lemma loadFont_noScan: "hoare noScan (loadFont env config) (\<lambda>_. noScan) noScan"
  by (simp add: hoare_def loadFont_def Let_def split: option.splits)

lemma genFrames_noScan:
  "hoare noScan (genFrames label env config face tc bg ivs) (\<lambda>_. noScan) noScan"
  by (rule genFrames_inv, rule saveFrames_inv) simp_all

lemma createFileList_noScan: "hoare noScan (createFileList env) (\<lambda>_. noScan) noScan"
  by (simp add: hoare_def createFileList_def split: sum.splits)

lemma createFileList_part0_noScan: "hoare noScan (createFileList_part0 env) (\<lambda>_. noScan) noScan"
  by (simp add: hoare_def createFileList_part0_def split: option.splits)

lemma encodeTransition_noScan: "hoare noScan (encodeTransition env config i) (\<lambda>_. noScan) noScan"
  by (simp add: hoare_def encodeTransition_def Let_def split: option.splits)

lemma fileListLoop_noScan:
  "hoare noScan (fileListLoop msg env config ivs) (\<lambda>_. noScan) noScan"
  by (rule fileListLoop_inv [OF encodeTransition_noScan]) simp_all

lemma mergeVideos_noScan: "hoare noScan (mergeVideos env name output) (\<lambda>_. noScan) noScan"
  by (simp add: hoare_def mergeVideos_def Let_def split: option.splits)

lemma mergeVideos_part0_noScan:
  "hoare noScan (mergeVideos_part0 env name output) (\<lambda>_. noScan) noScan"
  by (simp add: hoare_def mergeVideos_part0_def Let_def split: option.splits)

lemma processVideos_noScan:
  "hoare noScan (processVideos env config output videos) (\<lambda>_. noScan) noScan"
  unfolding processVideos_def Let_def
  by (rule hoare_andThen [OF prepareDir_noScan], rule hoare_andThen [OF loadFont_noScan],
      rule hoare_andThen [OF genFrames_noScan], rule hoare_andThen [OF createFileList_noScan],
      rule hoare_andThen [OF fileListLoop_noScan], rule mergeVideos_noScan)

lemma processVideos_part0_noScan:
  "hoare noScan (processVideos_part0 env config output tc bg videos) (\<lambda>_. noScan) noScan"
  unfolding processVideos_part0_def
  by (rule hoare_andThen [OF prepareDir_noScan], rule hoare_andThen [OF loadFont_noScan],
      rule hoare_andThen [OF genFrames_noScan], rule hoare_andThen [OF createFileList_part0_noScan],
      rule hoare_andThen [OF fileListLoop_noScan], rule mergeVideos_part0_noScan)

lemma loadVideos_explicit:
  "Source config \<noteq> [] \<Longrightarrow> loadVideos env config s = Next (sort (Source config)) s"
  by (simp add: loadVideos_def Let_def)

lemma loadVideos_part0_explicit:
  "Source config \<noteq> [] \<Longrightarrow>
   loadVideos_part0 env config s =
     Next (Source config) (Printf (''['' @ joinSpace (Source config) @ '']'' @ ''\<newline>'') s)"
  by (simp add: loadVideos_part0_def Let_def)

lemma main_explicit_noScan:
  assumes cfg: "loadConfig env initial = Next config s1" and src: "Source config \<noteq> []"
  shows "noScan (main env)"
proof -
  have s1: "noScan s1"
    using hoare_Next [OF loadConfig_noScan _ cfg] by simp
  have "main env = finish env (processVideos env config (outputPath env config) (sort (Source config)) s1)"
    by (simp add: main_def cfg loadVideos_explicit [OF src] Let_def)
  moreover have "noScan (stateOf (processVideos env config (outputPath env config)
      (sort (Source config)) s1))"
    by (rule hoare_stateOf [OF processVideos_noScan s1])
  ultimately show ?thesis by (simp add: noScan_finish)
qed

lemma main_part0_explicit_noScan:
  assumes cfg: "loadConfig env initial = Next config s1" and src: "Source config \<noteq> []"
  shows "noScan (main_part0 env)"
proof -
  let ?s2 = "Printf (''['' @ joinSpace (Source config) @ '']'' @ ''\<newline>'') s1"
  have s1: "noScan ?s2"
    using hoare_Next [OF loadConfig_noScan _ cfg] by simp
  have "main_part0 env = finish env (processVideos_part0 env config (outputPath env config)
      (hexToRGBA (Color (Text config))) (hexToRGBA (Background (Text config))) (Source config) ?s2)"
    by (simp add: main_part0_def cfg loadVideos_part0_explicit [OF src] Let_def)
  moreover have "noScan (stateOf (processVideos_part0 env config (outputPath env config)
      (hexToRGBA (Color (Text config))) (hexToRGBA (Background (Text config))) (Source config) ?s2))"
    by (rule hoare_stateOf [OF processVideos_part0_noScan s1])
  ultimately show ?thesis by (simp add: noScan_finish)
qed

text \<open>
  C5. When the explicit list of the configuration is not empty, the videos are that list
  (sorted in \<open>video_merger.go\<close>, as given in \<open>unnamed/part_000\<close>) and the whole run walks
  no directory. Only when the list is empty is \<open>./source\<close> scanned: the videos are then
  what the scan returns, and an error of the scan ends the run.
\<close>

theorem input_resolution:
  "(Source config \<noteq> [] \<longrightarrow>
      loadVideos env config s = Next (sort (Source config)) s \<and>
      loadVideos_part0 env config s =
        Next (Source config) (Printf (''['' @ joinSpace (Source config) @ '']'' @ ''\<newline>'') s) \<and>
      (loadConfig env initial = Next config s1 \<longrightarrow> noScan (main env) \<and> noScan (main_part0 env))) \<and>
   (Source config = [] \<longrightarrow>
      loadVideos env config s =
        (case getVideoFiles (fsys env) ''./source'' of
           Inl e \<Rightarrow>
             Returned (Printf (''Error reading source directory: '' @ e @ ''\<newline>'')
               (call (WalkDir ''./source'') (Some e) s))
         | Inr scanned \<Rightarrow> Next (sort scanned) (call (WalkDir ''./source'') None s)) \<and>
      loadVideos_part0 env config s =
        (case getVideoFiles_part0 (fsys env) ''./source'' of
           Inl e \<Rightarrow>
             Returned (Printf (''Error reading source directory: '' @ e @ ''\<newline>'')
               (call (Walk ''./source'') (Some e) s))
         | Inr scanned \<Rightarrow>
             Next scanned (Printf (''['' @ joinSpace scanned @ '']'' @ ''\<newline>'')
               (call (Walk ''./source'') None s))))"
  using main_explicit_noScan [of env config s1] main_part0_explicit_noScan [of env config s1]
  by (auto simp: loadVideos_def loadVideos_part0_def Let_def split: sum.splits)

theorem input_resolution_witness:
  "Source exampleConfig = [''clips/b.mp4'', ''clips/a.mp4''] \<and>
   loadConfig exampleEnv initial = Next exampleConfig exampleLoaded \<and>
   loadVideos exampleEnv exampleConfig exampleLoaded =
     Next [''clips/a.mp4'', ''clips/b.mp4''] exampleLoaded \<and>
   loadVideos_part0 exampleEnv exampleConfig exampleLoaded =
     Next [''clips/b.mp4'', ''clips/a.mp4'']
       (Printf ''[clips/b.mp4 clips/a.mp4]\<newline>'' exampleLoaded) \<and>
   noScan (main exampleEnv) \<and> noScan (main_part0 exampleEnv) \<and>
   Source scanConfig = [] \<and>
   loadVideos exampleEnv scanConfig initial =
     Next [''source/a.Mov'', ''source/b.MP4''] (call (WalkDir ''./source'') None initial) \<and>
   loadVideos_part0 exampleEnv scanConfig initial =
     Next [''source/a.Mov'', ''source/b.MP4'']
       (Printf ''[source/a.Mov source/b.MP4]\<newline>'' (call (Walk ''./source'') None initial))"
proof -
  have tree: "fsys exampleEnv = exampleTree" by (simp add: exampleEnv_def)
  from input_resolution [of exampleConfig exampleEnv exampleLoaded exampleLoaded] example_loadConfig
  have "noScan (main exampleEnv) \<and> noScan (main_part0 exampleEnv)" by simp
  moreover
  from input_resolution [of scanConfig exampleEnv initial exampleLoaded]
  have "loadVideos exampleEnv scanConfig initial =
        Next [''source/a.Mov'', ''source/b.MP4''] (call (WalkDir ''./source'') None initial) \<and>
      loadVideos_part0 exampleEnv scanConfig initial =
        Next [''source/a.Mov'', ''source/b.MP4'']
          (Printf ''[source/a.Mov source/b.MP4]\<newline>'' (call (Walk ''./source'') None initial))"
    by (simp add: tree exampleTree_scan exampleTree_scan_part0)
  ultimately show ?thesis
    using example_loadConfig example_loadVideos example_loadVideos_part0 by simp
qed

text \<open>
  In \<open>video_merger.go\<close> the list is sorted after either way of loading it.
\<close>

lemma loadVideos_sorted: "loadVideos env config s = Next videos s' \<Longrightarrow> sorted videos"
  by (auto simp: loadVideos_def Let_def split: if_splits sum.splits)

text \<open>
  C4. The claim: the list of videos the pipeline works on is always sorted, also when it
  is the explicit list. In \<open>unnamed/part_000\<close> there is no sort after loading: the
  explicit list \<open>clips/b.mp4\<close>, \<open>clips/a.mp4\<close> is worked on in that order, as the file
  list of the run shows. (Of \<open>video_merger.go\<close> the claim holds, by \<open>loadVideos_sorted\<close>.)
\<close>

theorem part0_explicit_list_unsorted:
  "Source exampleConfig = [''clips/b.mp4'', ''clips/a.mp4''] \<and>
   loadVideos_part0 exampleEnv exampleConfig exampleLoaded =
     Next [''clips/b.mp4'', ''clips/a.mp4'']
       (Printf ''[clips/b.mp4 clips/a.mp4]\<newline>'' exampleLoaded) \<and>
   \<not> sorted [''clips/b.mp4'', ''clips/a.mp4''] \<and>
   filelist (main_part0 exampleEnv) =
     [entryLine ''clips/b.mp4'', entryLine (clipName 1), entryLine ''clips/a.mp4'']"
proof -
  have "filelist (main_part0 exampleEnv) = linesOf (enumerate 0 [''clips/b.mp4'', ''clips/a.mp4''])"
    by (rule main_part0_filelist [OF example_loadConfig example_loadVideos_part0
          example_succeeded(2)])
  then show ?thesis
    using example_loadVideos_part0 by simp
qed

subsection \<open>Temporary files\<close>



text \<open>
  Every stage keeps the state tidy: whatever it creates, it defers the removal that
  belongs to it, or what it creates is one of the paths for which none is deferred.
\<close>

lemma tidy_simps [simp]:
  "tidy env initial" "tidy env (Printf m s) = tidy env s"
  "tidy env (writeLine l s) = tidy env s"
  by (auto simp: tidy_def Printf_def)































end
